theory Spec2Isabelle
  imports Complex_Main "HOL-Library.Word" "HOL-Library.Sublist" "HOL-Library.Multiset"
begin

section \<open>JavaScript strings\<close>

text \<open>
  A JavaScript string is a sequence of UTF-16 code units; a code unit is modelled by its
  numeric value. Literals of the source are written with \<open>S\<close>, which maps every
  character of an ASCII literal to its code. A \<open>Buffer\<close> is a list of bytes.
\<close>

type_synonym jsstring = "nat list"

type_synonym byte = "8 word"

definition S :: "string \<Rightarrow> jsstring" where
  "S s = map of_char s"

text \<open>The class \<open>\d\<close> of a regular expression without the unicode flag.\<close>

definition isDigit :: "nat \<Rightarrow> bool" where
  "isDigit c = (48 \<le> c \<and> c \<le> 57)"

text \<open>
  The class \<open>\s\<close>, which is also what \<open>String.prototype.trim\<close> strips: the
  WhiteSpace and LineTerminator code points of ECMAScript.
\<close>

definition isSpace :: "nat \<Rightarrow> bool" where
  "isSpace c = (c = 9 \<or> c = 10 \<or> c = 11 \<or> c = 12 \<or> c = 13 \<or> c = 32 \<or> c = 160
     \<or> c = 5760 \<or> (8192 \<le> c \<and> c \<le> 8202) \<or> c = 8232 \<or> c = 8233 \<or> c = 8239
     \<or> c = 8287 \<or> c = 12288 \<or> c = 65279)"

definition trimStart :: "jsstring \<Rightarrow> jsstring" where
  "trimStart s = dropWhile isSpace s"

definition trimEnd :: "jsstring \<Rightarrow> jsstring" where
  "trimEnd s = rev (dropWhile isSpace (rev s))"

definition trim :: "jsstring \<Rightarrow> jsstring" where
  "trim s = trimEnd (trimStart s)"

text \<open>\<open>s.startsWith(p)\<close>\<close>

fun startsWith :: "jsstring \<Rightarrow> jsstring \<Rightarrow> bool" where
  "startsWith s [] = True"
| "startsWith [] (p # ps) = False"
| "startsWith (c # cs) (p # ps) = (c = p \<and> startsWith cs ps)"

section \<open>SRT to VTT\<close>

text \<open>\<open>text.replace(/\r\n/g, '\n')\<close>: every CR LF pair, found from the left, becomes LF.\<close>

fun replaceCrLf :: "jsstring \<Rightarrow> jsstring" where
  "replaceCrLf [] = []"
| "replaceCrLf [c] = [c]"
| "replaceCrLf (c # d # cs) =
     (if c = 13 \<and> d = 10 then 10 # replaceCrLf cs else c # replaceCrLf (d # cs))"

text \<open>
  One attempt of \<open>/(\d{2}:\d{2}:\d{2}),(\d{3})/\<close> at the head of a string: the twelve
  code units \<open>dd:dd:dd,ddd\<close>. The pattern has a fixed length and no alternative, so
  an attempt either consumes exactly these twelve units or fails.
\<close>

definition matchSrtTime :: "jsstring \<Rightarrow> bool" where
  "matchSrtTime s = (case s of
       a # b # c # d # e # f # g # h # i # j # k # l # _ \<Rightarrow>
         isDigit a \<and> isDigit b \<and> c = 58 \<and> isDigit d \<and> isDigit e \<and> f = 58
         \<and> isDigit g \<and> isDigit h \<and> i = 44 \<and> isDigit j \<and> isDigit k \<and> isDigit l
     | _ \<Rightarrow> False)"

text \<open>
  \<open>.replace(/(\d{2}:\d{2}:\d{2}),(\d{3})/g, '$1.$2')\<close>: the global replace scans from
  the left; a match is replaced by its two groups with a dot between them and the scan
  goes on behind the match, anything else is copied.
\<close>

function replaceSrtTimes :: "jsstring \<Rightarrow> jsstring" where
  "replaceSrtTimes [] = []"
| "replaceSrtTimes (c # cs) =
     (if matchSrtTime (c # cs)
      then take 8 (c # cs) @ [46] @ take 3 (drop 9 (c # cs)) @ replaceSrtTimes (drop 12 (c # cs))
      else c # replaceSrtTimes cs)"
  by pat_completeness auto
termination
  by (relation "measure length") auto

definition srtToVtt :: "jsstring \<Rightarrow> jsstring" where
  "srtToVtt srtContent =
     (let vttBody = replaceSrtTimes (replaceCrLf srtContent)
      in S ''WEBVTT'' @ [10, 10] @ trim vttBody @ [10])"

section \<open>ASS/SSA to VTT\<close>

subsection \<open>String and array helpers\<close>

text \<open>\<open>s.split(',')\<close> with a one-unit separator; the accumulator holds the current
  piece, reversed. The empty string splits into one empty piece.\<close>

fun splitOn :: "nat \<Rightarrow> jsstring \<Rightarrow> jsstring \<Rightarrow> jsstring list" where
  "splitOn sep cur [] = [rev cur]"
| "splitOn sep cur (c # cs) =
     (if c = sep then rev cur # splitOn sep [] cs else splitOn sep (c # cur) cs)"


text \<open>\<open>parts.join(',')\<close>\<close>

fun joinWith :: "jsstring \<Rightarrow> jsstring list \<Rightarrow> jsstring" where
  "joinWith sep [] = []"
| "joinWith sep [x] = x"
| "joinWith sep (x # y # ys) = x @ sep @ joinWith sep (y # ys)"


text \<open>\<open>arr[i]\<close>; \<open>None\<close> stands for \<open>undefined\<close>.\<close>

definition elemAt :: "'a list \<Rightarrow> nat \<Rightarrow> 'a option" where
  "elemAt xs i = (if i < length xs then Some (xs ! i) else None)"

text \<open>
  A literal ASCII letter of a pattern with the \<open>i\<close> flag (and no \<open>u\<close> flag) matches
  its two cases only: canonicalisation never maps a code unit above 127 to one below 128.
\<close>

definition upperAscii :: "nat \<Rightarrow> nat" where
  "upperAscii c = (if 97 \<le> c \<and> c \<le> 122 then c - 32 else c)"

fun startsWithCI :: "jsstring \<Rightarrow> jsstring \<Rightarrow> bool" where
  "startsWithCI s [] = True"
| "startsWithCI [] (p # ps) = False"
| "startsWithCI (c # cs) (p # ps) = (upperAscii c = upperAscii p \<and> startsWithCI cs ps)"






subsection \<open>Timestamps\<close>




subsection \<open>Colours\<close>


subsection \<open>Dialogue text\<close>








subsection \<open>The conversion\<close>












text \<open>
  \<open>toLowerCase\<close> on strings of code units below U+0100: the ASCII capitals and the
  Latin-1 capitals (U+00C0 to U+00DE without the multiplication sign) move up by 32,
  every other code unit of that range stays. Above that range this function leaves the
  code units as they are, which the built-in function does not.
\<close>

definition lowerLatin1 :: "nat \<Rightarrow> nat" where
  "lowerLatin1 c =
     (if (65 \<le> c \<and> c \<le> 90) \<or> (192 \<le> c \<and> c \<le> 222 \<and> c \<noteq> 215) then c + 32 else c)"

definition toLowerCaseLatin1 :: "jsstring \<Rightarrow> jsstring" where
  "toLowerCaseLatin1 s = map lowerLatin1 s"








section \<open>Title filter\<close>

text \<open>\<open>s.toLowerCase().replace(/[^a-z0-9\s]/g, '').trim()\<close>, with \<open>toLowerCase\<close> as the
  parameter \<open>lc\<close>.\<close>

definition isLowerAlnum :: "nat \<Rightarrow> bool" where
  "isLowerAlnum c = ((97 \<le> c \<and> c \<le> 122) \<or> isDigit c)"

definition normalizeTitle :: "(jsstring \<Rightarrow> jsstring) \<Rightarrow> jsstring \<Rightarrow> jsstring" where
  "normalizeTitle lc s = trim (filter (\<lambda>c. isLowerAlnum c \<or> isSpace c) (lc s))"

text \<open>\<open>/^\d{4}/.test(after)\<close>\<close>

definition startsWithYear :: "jsstring \<Rightarrow> bool" where
  "startsWithYear s = (length s \<ge> 4 \<and> list_all isDigit (take 4 s))"

text \<open>\<open>/^(s\d|season|720|1080|2160|bluray|brrip|web|dvd|hdtv|x26)/i.test(after)\<close>\<close>

definition releaseWords :: "jsstring list" where
  "releaseWords = map S [''season'', ''720'', ''1080'', ''2160'', ''bluray'', ''brrip'', ''web'',
     ''dvd'', ''hdtv'', ''x26'']"

definition startsWithReleaseToken :: "jsstring \<Rightarrow> bool" where
  "startsWithReleaseToken s =
     ((startsWithCI s (S ''s'') \<and> list_all isDigit (take 1 (drop 1 s)) \<and> length s \<ge> 2)
      \<or> list_ex (startsWithCI s) releaseWords)"

definition isExactTitleMatch :: "(jsstring \<Rightarrow> jsstring) \<Rightarrow> jsstring \<Rightarrow> jsstring \<Rightarrow> bool" where
  "isExactTitleMatch lc movieName subText =
     (if movieName = [] \<or> subText = [] then False
      else let movie = normalizeTitle lc movieName;
               sub = normalizeTitle lc subText
           in if sub = movie then True
              else if startsWith sub movie
                then (let after = trim (drop (length movie) sub)
                      in after = [] \<or> startsWithYear after \<or> startsWithReleaseToken after)
                else False)"

text \<open>
  The filter in the words of the specification, on two normalised texts: the candidate
  is the target, or the target followed by a rest that, without the white space around it,
  is empty or begins with four digits or with a release token written in lower case.
\<close>

definition followsTitle :: "jsstring \<Rightarrow> bool" where
  "followsTitle rest =
     (let r = trim rest in
      r = []
      \<or> (\<exists>a b c d tl. r = a # b # c # d # tl \<and> isDigit a \<and> isDigit b \<and> isDigit c \<and> isDigit d)
      \<or> (\<exists>d tl. r = 115 # d # tl \<and> isDigit d)
      \<or> (\<exists>w \<in> set releaseWords. prefix w r))"

definition specTitleMatch :: "jsstring \<Rightarrow> jsstring \<Rightarrow> bool" where
  "specTitleMatch target cand = (cand = target \<or> (\<exists>rest. cand = target @ rest \<and> followsTitle rest))"

text \<open>A text of lower-case letters, digits and white space only.\<close>

definition normalText :: "jsstring \<Rightarrow> bool" where
  "normalText s = list_all (\<lambda>c. isLowerAlnum c \<or> isSpace c) s"

section \<open>Encoding detection\<close>

text \<open>
  The decoders are functions of the platform and of the library iconv-lite:
  \<open>buffer.toString('utf-8')\<close>, \<open>iconv.decode(buffer, 'utf-16le')\<close> and
  \<open>iconv.decode(buffer, 'win1250')\<close>. They are parameters of \<open>ensureUtf8\<close>.
\<close>

record decoders =
  utf8 :: "byte list \<Rightarrow> jsstring"
  utf16le :: "byte list \<Rightarrow> jsstring"
  win1250 :: "byte list \<Rightarrow> jsstring"

text \<open>\<open>(str.match(/\\uFFFD/g) || []).length\<close>: the occurrences of U+FFFD.\<close>

definition countReplacements :: "jsstring \<Rightarrow> nat" where
  "countReplacements str = length (filter (\<lambda>c. c = 65533) str)"

text \<open>\<open>(str.match(/[\xC0-\xC3][\x80-\xBF]/g) || []).length\<close>: the matches are counted
  from the left and the search goes on behind each match.\<close>

fun countSuspicious :: "jsstring \<Rightarrow> nat" where
  "countSuspicious [] = 0"
| "countSuspicious [c] = 0"
| "countSuspicious (c # d # cs) =
     (if 192 \<le> c \<and> c \<le> 195 \<and> 128 \<le> d \<and> d \<le> 191
      then Suc (countSuspicious cs) else countSuspicious (d # cs))"

text \<open>
  \<open>suspicious / totalChars > 0.02\<close> is a division of doubles in the source. The two
  counts are below \<open>2^53\<close>, and for every length a string can have the rounded quotient
  exceeds the double nearest to 0.02 exactly when the exact quotient exceeds 2/100, which
  is the comparison written here.
\<close>

definition isValidUtf8 :: "jsstring \<Rightarrow> bool" where
  "isValidUtf8 str =
     (let replacements = countReplacements str in
      if replacements > 0 then False
      else let suspicious = countSuspicious str;
               totalChars = length str
           in if totalChars > 50 \<and> real suspicious / real totalChars > 2 / 100 then False
              else True)"

text \<open>\<open>buffer[i] === b\<close>; a read behind the end gives \<open>undefined\<close>, which equals no byte.\<close>

definition byteIs :: "byte list \<Rightarrow> nat \<Rightarrow> byte \<Rightarrow> bool" where
  "byteIs buffer i b = (elemAt buffer i = Some b)"

definition ensureUtf8 :: "decoders \<Rightarrow> byte list \<Rightarrow> jsstring" where
  "ensureUtf8 dec buffer =
     (if byteIs buffer 0 0xEF \<and> byteIs buffer 1 0xBB \<and> byteIs buffer 2 0xBF then utf8 dec buffer
      else if byteIs buffer 0 0xFF \<and> byteIs buffer 1 0xFE then utf16le dec buffer
      else let utf8Str = utf8 dec buffer
           in if isValidUtf8 utf8Str then utf8Str else win1250 dec buffer)"

text \<open>
  The number of places of a text at which a code unit from U+00C0 to U+00C3 is followed
  by one from U+0080 to U+00BF, as the specification counts the suspicious characters.
\<close>

definition suspiciousPlaces :: "jsstring \<Rightarrow> nat set" where
  "suspiciousPlaces str =
     {i. Suc i < length str \<and> 192 \<le> str ! i \<and> str ! i \<le> 195
         \<and> 128 \<le> str ! Suc i \<and> str ! Suc i \<le> 191}"

text \<open>Whether a suspicious pair begins with the code unit \<open>c\<close> in front of \<open>s\<close>.\<close>

definition susAt :: "nat \<Rightarrow> jsstring \<Rightarrow> bool" where
  "susAt c s = (case s of [] \<Rightarrow> False | d # _ \<Rightarrow> 192 \<le> c \<and> c \<le> 195 \<and> 128 \<le> d \<and> d \<le> 191)"

text \<open>
  A UTF-8 decoder after the WHATWG Encoding Standard, which \<open>buffer.toString('utf-8')\<close>
  follows: every ill-formed sequence gives one U+FFFD, a code point above U+FFFF gives a
  surrogate pair. \<open>cp\<close> is the code point read so far, \<open>need\<close> the number of
  continuation bytes still expected, \<open>lo\<close> and \<open>hi\<close> the bounds of the next one.
\<close>

definition utf16Units :: "nat \<Rightarrow> jsstring" where
  "utf16Units cp =
     (if cp < 65536 then [cp]
      else [55296 + (cp - 65536) div 1024, 56320 + (cp - 65536) mod 1024])"

definition utf8Lead :: "nat \<Rightarrow> (nat \<times> nat \<times> nat \<times> nat) option" where
  "utf8Lead b =
     (if 194 \<le> b \<and> b \<le> 223 then Some (b mod 32, 1, 128, 191)
      else if 224 \<le> b \<and> b \<le> 239
        then Some (b mod 16, 2, if b = 224 then 160 else 128, if b = 237 then 159 else 191)
      else if 240 \<le> b \<and> b \<le> 244
        then Some (b mod 8, 3, if b = 240 then 144 else 128, if b = 244 then 143 else 191)
      else None)"

function utf8Go :: "nat \<Rightarrow> nat \<Rightarrow> nat \<Rightarrow> nat \<Rightarrow> nat list \<Rightarrow> jsstring" where
  "utf8Go cp need lo hi [] = (if need = 0 then [] else [65533])"
| "utf8Go cp 0 lo hi (b # bs) =
     (if b < 128 then b # utf8Go 0 0 128 191 bs
      else (case utf8Lead b of
              Some (cp', need', lo', hi') \<Rightarrow> utf8Go cp' need' lo' hi' bs
            | None \<Rightarrow> 65533 # utf8Go 0 0 128 191 bs))"
| "utf8Go cp (Suc n) lo hi (b # bs) =
     (if lo \<le> b \<and> b \<le> hi then
        (if n = 0 then utf16Units (cp * 64 + b mod 64) @ utf8Go 0 0 128 191 bs
         else utf8Go (cp * 64 + b mod 64) n 128 191 bs)
      else 65533 # utf8Go 0 0 128 191 (b # bs))"
  by pat_completeness auto
termination
  by (relation "measures [\<lambda>(cp, need, lo, hi, bs). length bs, \<lambda>(cp, need, lo, hi, bs). need]")
     simp_all

definition utf8Decode :: "byte list \<Rightarrow> jsstring" where
  "utf8Decode buffer = utf8Go 0 0 128 191 (map unat buffer)"

section \<open>Session: login\<close>

text \<open>\<open>s.includes(p)\<close>\<close>

fun strIncludes :: "jsstring \<Rightarrow> jsstring \<Rightarrow> bool" where
  "strIncludes [] p = (p = [])"
| "strIncludes (c # cs) p = (startsWith (c # cs) p \<or> strIncludes cs p)"

text \<open>
  The promise of a login settles with a boolean or is rejected. A caller of \<open>login()\<close>
  has not called yet, or waits for the promise it created (and will run the
  \<open>finally\<close> block), or waits for a promise it found in \<open>loginPromise\<close>, or has its result.
\<close>

datatype outcome = Resolved bool | Rejected













section \<open>Search\<close>

text \<open>
  What \<open>search\<close> does to the outside is kept in a log: a call of \<open>login()\<close>, and a
  search request for a title with what \<open>_searchStandard\<close> made of it (\<open>None\<close> when the
  request failed). The site is a state \<open>'n\<close> with two operations: awaiting
  \<open>this.login()\<close>, which gives a boolean or fails, and the GET of the search page of a
  title, which gives the body or fails. \<open>_parseSearchResults\<close> is a parameter.
\<close>

datatype 'r action = LoginCall | SearchRequest jsstring "'r list option"

record ('n, 'r) site =
  awaitLogin :: "'n \<Rightarrow> bool option \<times> 'n"
  getSearchPage :: "jsstring \<Rightarrow> 'n \<Rightarrow> jsstring option \<times> 'n"
  parseSearchResults :: "jsstring \<Rightarrow> 'r list"

record ('n, 'r) world =
  trace :: "'r action list"
  net :: 'n

definition searchStandard ::
  "('n, 'r) site \<Rightarrow> jsstring \<Rightarrow> ('n, 'r) world \<Rightarrow> 'r list option \<times> ('n, 'r) world" where
  "searchStandard env title w =
     (case getSearchPage env title (net w) of
        (None, n') \<Rightarrow> (None, w\<lparr>trace := trace w @ [SearchRequest title None], net := n'\<rparr>)
      | (Some content, n') \<Rightarrow>
          (let results = (if strIncludes content (S ''Nenalezena ani jedna'') then []
                          else parseSearchResults env content)
           in (Some results, w\<lparr>trace := trace w @ [SearchRequest title (Some results)], net := n'\<rparr>)))"

text \<open>The loop of \<open>search\<close>; a failed request ends it, as the exception does.\<close>

fun searchLoop ::
  "('n, 'r) site \<Rightarrow> ('n, 'r) world \<Rightarrow> jsstring list \<Rightarrow> 'r list option \<times> ('n, 'r) world" where
  "searchLoop env w [] = (Some [], w)"
| "searchLoop env w (title # rest) =
     (if title = [] \<or> length title < 2 then searchLoop env w rest
      else (case searchStandard env title w of
              (None, w') \<Rightarrow> (None, w')
            | (Some results, w') \<Rightarrow>
                if length results > 0 then (Some results, w') else searchLoop env w' rest))"

definition search ::
  "('n, 'r) site \<Rightarrow> ('n, 'r) world \<Rightarrow> jsstring list \<Rightarrow> 'r list option \<times> ('n, 'r) world" where
  "search env w titles =
     (case awaitLogin env (net w) of
        (None, n') \<Rightarrow> (None, w\<lparr>trace := trace w @ [LoginCall], net := n'\<rparr>)
      | (Some ok, n') \<Rightarrow> searchLoop env (w\<lparr>trace := trace w @ [LoginCall], net := n'\<rparr>) titles)"

text \<open>
  The words of the specification: a candidate is tried when it has two code units or
  more; \<open>resultsOf\<close> is what \<open>_searchStandard\<close> makes of a page; \<open>firstNonEmpty\<close> is
  the answer for the first candidate, in the order of the list, that is tried and whose
  answer is not empty, and the empty list when there is none. A request is empty when
  it came back with no result. \<open>logins\<close> counts the calls of \<open>login()\<close> in a trace.
\<close>

definition eligible :: "jsstring \<Rightarrow> bool" where
  "eligible t = (t \<noteq> [] \<and> length t \<ge> 2)"

definition resultsOf :: "('n, 'r) site \<Rightarrow> jsstring \<Rightarrow> 'r list" where
  "resultsOf env pageBody =
     (if strIncludes pageBody (S ''Nenalezena ani jedna'') then [] else parseSearchResults env pageBody)"

definition firstNonEmpty :: "(jsstring \<Rightarrow> 'r list) \<Rightarrow> jsstring list \<Rightarrow> 'r list" where
  "firstNonEmpty answer titles =
     (case find (\<lambda>t. eligible t \<and> answer t \<noteq> []) titles of None \<Rightarrow> [] | Some t \<Rightarrow> answer t)"

definition emptyRequest :: "'r action \<Rightarrow> bool" where
  "emptyRequest a = (case a of SearchRequest t (Some []) \<Rightarrow> True | _ \<Rightarrow> False)"

definition logins :: "'r action list \<Rightarrow> nat" where
  "logins tr = length (filter (\<lambda>a. a = LoginCall) tr)"

text \<open>
  A site for an example: the page of the title \<open>Xx\<close> says that nothing was found, the
  page of any other title is the title, and the parser finds two results in the page
  \<open>Yy\<close> and three in the page \<open>Zz\<close>. Its state counts the requests.
\<close>

definition demoPage :: "jsstring \<Rightarrow> jsstring" where
  "demoPage t = (if t = S ''Xx'' then S ''<p>Nenalezena ani jedna</p>'' else t)"

definition demoSite :: "(nat, nat) site" where
  "demoSite =
     \<lparr>awaitLogin = (\<lambda>n. (Some True, n)),
      getSearchPage = (\<lambda>t n. (Some (demoPage t), Suc n)),
      parseSearchResults = (\<lambda>c. if c = S ''Yy'' then [1, 2] else if c = S ''Zz'' then [3, 4, 5] else [])\<rparr>"

section \<open>Serving a subtitle\<close>

record cacheEntry =
  content :: jsstring
  filename :: jsstring
  time :: int

text \<open>A file that \<open>downloadSubtitle\<close> extracted from the archive.\<close>

record subFile =
  fileName :: jsstring
  fileData :: "byte list"

text \<open>
  What the parts of the handler outside this file come back with: \<open>getClient(config)\<close>
  gives a client or \<open>null\<close> or throws, \<open>client.downloadSubtitle\<close> gives files or
  \<open>null\<close> or throws.
\<close>

datatype clientOutcome = ClientOk | ClientNull | ClientThrows

datatype downloadOutcome = DownloadFiles "subFile list" | DownloadNull | DownloadThrows

text \<open>The response: the status, the two headers the handler sets, and the body.\<close>

record response =
  status :: nat
  contentType :: "jsstring option"
  contentDisposition :: "jsstring option"
  body :: jsstring

text \<open>
  A request: \<open>omni\<close> is \<open>None\<close> when \<open>decodeConfig\<close> gives \<open>null\<close>, and
  \<open>!!config.omni\<close> otherwise.
\<close>

record request =
  omni :: "bool option"
  subId :: jsstring
  linkFile :: jsstring

text \<open>
  Where the handler of a request stands: each \<open>await\<close> of the handler is a place at
  which it stops and other handlers run. At \<open>AwaitLock p\<close> it awaits the lock promise
  \<open>p\<close> of another request; at \<open>AwaitClient p\<close> and \<open>AwaitDownload p\<close> it holds the
  resolve function of the lock promise \<open>p\<close> it has created. At \<open>Done r\<close> it has sent
  the response \<open>r\<close>; at \<open>Threw\<close> an exception has left it outside the \<open>try\<close> block,
  and it has sent nothing.
\<close>

datatype pc = NotStarted | AwaitR2 | AwaitLock nat | AwaitClient nat | AwaitDownload nat
  | Done response | Threw

text \<open>
  The state the handlers share: the two maps of the source, the lock promises that have
  been resolved, the calls of \<open>client.downloadSubtitle\<close> and of \<open>r2Put\<close> so far, and
  for every request what it asked and where its handler stands.
\<close>

record server =
  subtitleCache :: "jsstring \<rightharpoonup> cacheEntry"
  downloadLocks :: "jsstring \<rightharpoonup> nat"
  resolvedLocks :: "nat set"
  nextLock :: nat
  fetches :: "(jsstring \<times> jsstring) list"
  r2Puts :: "(jsstring \<times> jsstring \<times> jsstring) list"
  requests :: "nat \<Rightarrow> request"
  pcs :: "nat \<Rightarrow> pc"

text \<open>
  Functions of the platform that the handler calls: the decoders, and
  \<open>encodeURIComponent\<close> and \<open>decodeURIComponent\<close>, which give \<open>None\<close> when they throw.
\<close>

record platform =
  decode :: decoders
  encodeURIComponent :: "jsstring \<Rightarrow> jsstring option"
  decodeURIComponent :: "jsstring \<Rightarrow> jsstring option"







text \<open>
  \<open>res.setHeader\<close> throws \<open>ERR_INVALID_CHAR\<close> when the value of the header has a
  code unit other than the tab, \<open>0x20\<close> to \<open>0x7E\<close> and \<open>0x80\<close> to \<open>0xFF\<close>.
\<close>

definition validHeaderValue :: "jsstring \<Rightarrow> bool" where
  "validHeaderValue v =
     list_all (\<lambda>c. c = 9 \<or> (32 \<le> c \<and> c \<le> 126) \<or> (128 \<le> c \<and> c \<le> 255)) v"

definition SUBTITLE_CACHE_TTL :: int where
  "SUBTITLE_CACHE_TTL = 60 * 60 * 1000"

text \<open>\<open>filename.replace(/\.srt$/i, '.vtt')\<close>\<close>

definition srtNameToVtt :: "jsstring \<Rightarrow> jsstring" where
  "srtNameToVtt name =
     (let n = length name in
      if n \<ge> 4 \<and> startsWithCI (drop (n - 4) name) (S ''.srt'')
      then take (n - 4) name @ S ''.vtt'' else name)"

text \<open>
  \<open>sendSub\<close> sends the response, or throws: in the Omni branch when
  \<open>encodeURIComponent\<close> throws or the \<open>Content-Disposition\<close> value is refused, before
  any header is set; in the other branch when the \<open>Content-Disposition\<close> value, which
  holds the file name as it is, is refused, after \<open>Content-Type\<close> has been set.
  \<open>SendThrows\<close> carries the \<open>Content-Type\<close> header that is set on the response at the
  throw.
\<close>

datatype sent = Sent response | SendThrows "jsstring option"

definition sendSub :: "platform \<Rightarrow> bool \<Rightarrow> jsstring \<Rightarrow> jsstring \<Rightarrow> sent" where
  "sendSub pf isOmni cont name =
     (if isOmni
      then (case encodeURIComponent pf (srtNameToVtt name) of
              None \<Rightarrow> SendThrows None
            | Some encoded \<Rightarrow>
                if validHeaderValue (S ''inline; filename='' @ [34] @ encoded @ [34])
                then Sent \<lparr>status = 200,
                           contentType = Some (S ''text/vtt; charset=utf-8''),
                           contentDisposition =
                             Some (S ''inline; filename='' @ [34] @ encoded @ [34]),
                           body = srtToVtt cont\<rparr>
                else SendThrows None)
      else if validHeaderValue (S ''attachment; filename='' @ [34] @ name @ [34])
           then Sent \<lparr>status = 200,
                      contentType = Some (S ''text/plain; charset=utf-8''),
                      contentDisposition = Some (S ''attachment; filename='' @ [34] @ name @ [34]),
                      body = cont\<rparr>
           else SendThrows (Some (S ''text/plain; charset=utf-8'')))"

text \<open>The text of the cue that tells the user the download limit is reached.\<close>

definition limitText :: jsstring where
  "limitText =
     [80, 345, 101, 107, 114, 111, 269, 105, 108, 105, 32, 106, 115, 116, 101, 32,
      100, 101, 110, 110, 237, 32, 108, 105, 109, 105, 116, 32, 115, 116, 97, 382,
      101, 110, 237, 32, 116, 105, 116, 117, 108, 107, 367, 32, 122, 32, 84, 105,
      116, 117, 108, 107, 121, 46, 99, 111, 109, 46, 32, 83, 116, 225, 104, 110,
      283, 116, 101, 32, 116, 105, 116, 117, 108, 107, 121, 32, 107, 116, 101, 114,
      233, 32, 106, 115, 111, 117, 32, 118, 32, 99, 97, 99, 104, 105, 32, 40,
      111, 122, 110, 97, 269, 101, 110, 233, 32, 9989, 41, 32, 110, 101, 98, 111,
      32, 112, 111, 269, 107, 101, 106, 116, 101, 32, 110, 97, 32, 114, 101, 115,
      101, 116, 32, 108, 105, 109, 105, 116, 117, 32, 100, 111, 32, 100, 97, 108,
      353, 237, 104, 111, 32, 100, 110, 101, 46]"

definition limitMsg :: "bool \<Rightarrow> jsstring" where
  "limitMsg isOmni =
     (if isOmni
      then S ''WEBVTT\<newline>\<newline>1\<newline>00:00:01.000 --> 00:00:30.000\<newline>'' @ limitText @ [10]
      else S ''1\<newline>00:00:01,000 --> 00:00:30,000\<newline>'' @ limitText @ [10])"

definition plain :: "nat \<Rightarrow> jsstring \<Rightarrow> response" where
  "plain code text = \<lparr>status = code, contentType = None, contentDisposition = None, body = text\<rparr>"

definition cacheKey :: "request \<Rightarrow> jsstring" where
  "cacheKey rq = subId rq @ S ''-'' @ linkFile rq"

definition isOmniOf :: "request \<Rightarrow> bool" where
  "isOmniOf rq = (case omni rq of Some b \<Rightarrow> b | None \<Rightarrow> False)"

definition finish :: "nat \<Rightarrow> response \<Rightarrow> server \<Rightarrow> server" where
  "finish rid resp st = st\<lparr>pcs := (pcs st)(rid := Done resp)\<rparr>"

text \<open>
  \<open>return sendSub(...)\<close> before the \<open>try\<close> block: an exception of \<open>sendSub\<close> leaves
  the handler.
\<close>

definition sendOutsideTry :: "nat \<Rightarrow> sent \<Rightarrow> server \<Rightarrow> server" where
  "sendOutsideTry rid s st =
     (case s of
        Sent resp \<Rightarrow> finish rid resp st
      | SendThrows ct \<Rightarrow> st\<lparr>pcs := (pcs st)(rid := Threw)\<rparr>)"

text \<open>The start of the handler, up to \<open>await r2Get(subId)\<close>.\<close>

definition arrive :: "platform \<Rightarrow> nat \<Rightarrow> request \<Rightarrow> int \<Rightarrow> server \<Rightarrow> server" where
  "arrive pf rid rq now st0 =
     (if pcs st0 rid \<noteq> NotStarted then st0
      else let st = st0\<lparr>requests := (requests st0)(rid := rq)\<rparr> in
        (case omni rq of
           None \<Rightarrow> finish rid (plain 400 (S ''Invalid config'')) st
         | Some isOmni \<Rightarrow>
             (case subtitleCache st (cacheKey rq) of
                Some cached \<Rightarrow>
                  if now - time cached < SUBTITLE_CACHE_TTL
                  then sendOutsideTry rid (sendSub pf isOmni (content cached) (filename cached)) st
                  else st\<lparr>subtitleCache := (subtitleCache st)(cacheKey rq := None),
                          pcs := (pcs st)(rid := AwaitR2)\<rparr>
              | None \<Rightarrow> st\<lparr>pcs := (pcs st)(rid := AwaitR2)\<rparr>)))"

text \<open>
  \<open>let resolveLock; const lockPromise = new Promise(...); downloadLocks.set(subId,
  lockPromise); const client = await getClient(config);\<close>
\<close>

definition createLock :: "nat \<Rightarrow> server \<Rightarrow> server" where
  "createLock rid st =
     st\<lparr>downloadLocks := (downloadLocks st)(subId (requests st rid) \<mapsto> nextLock st),
        nextLock := Suc (nextLock st),
        pcs := (pcs st)(rid := AwaitClient (nextLock st))\<rparr>"

text \<open>After \<open>await r2Get(subId)\<close>, up to the next \<open>await\<close>.\<close>

definition r2Done :: "platform \<Rightarrow> nat \<Rightarrow> (jsstring \<times> jsstring) option \<Rightarrow> int \<Rightarrow> server \<Rightarrow> server" where
  "r2Done pf rid r2Cached now st =
     (if pcs st rid \<noteq> AwaitR2 then st
      else let rq = requests st rid in
        (case r2Cached of
           Some (cont, name) \<Rightarrow>
             sendOutsideTry rid (sendSub pf (isOmniOf rq) cont name)
               (st\<lparr>subtitleCache := (subtitleCache st)(cacheKey rq \<mapsto>
                     \<lparr>content = cont, filename = name, time = now\<rparr>)\<rparr>)
         | None \<Rightarrow>
             (case downloadLocks st (subId rq) of
                Some p \<Rightarrow> st\<lparr>pcs := (pcs st)(rid := AwaitLock p)\<rparr>
              | None \<Rightarrow> createLock rid st)))"

text \<open>
  The \<open>catch\<close> block: the entry of the map goes, if there is one; the resolve function
  of the lock promise is not in scope and is not called. The response has the status 500,
  and the \<open>Content-Type\<close> header \<open>ct\<close> if the handler had set one before the exception.
\<close>

definition failed :: "jsstring option \<Rightarrow> response" where
  "failed ct = \<lparr>status = 500, contentType = ct, contentDisposition = None,
                body = S ''Download failed''\<rparr>"

definition catchError :: "jsstring option \<Rightarrow> nat \<Rightarrow> server \<Rightarrow> server" where
  "catchError ct rid st =
     finish rid (failed ct)
       (st\<lparr>downloadLocks := (downloadLocks st)(subId (requests st rid) := None)\<rparr>)"

text \<open>\<open>return sendSub(...)\<close> in the \<open>try\<close> block: an exception of \<open>sendSub\<close> is caught.\<close>

definition sendInsideTry :: "nat \<Rightarrow> sent \<Rightarrow> server \<Rightarrow> server" where
  "sendInsideTry rid s st =
     (case s of
        Sent resp \<Rightarrow> finish rid resp st
      | SendThrows ct \<Rightarrow> catchError ct rid st)"

text \<open>After \<open>await downloadLocks.get(subId)\<close>, which goes on once the promise is resolved.\<close>

definition lockDone :: "platform \<Rightarrow> nat \<Rightarrow> server \<Rightarrow> server" where
  "lockDone pf rid st =
     (case pcs st rid of
        AwaitLock p \<Rightarrow>
          if p \<notin> resolvedLocks st then st
          else let rq = requests st rid in
            (case subtitleCache st (cacheKey rq) of
               Some cached \<Rightarrow>
                 sendInsideTry rid (sendSub pf (isOmniOf rq) (content cached) (filename cached)) st
             | None \<Rightarrow> createLock rid st)
      | _ \<Rightarrow> st)"

text \<open>\<open>downloadLocks.delete(subId); resolveLock();\<close> for the own lock promise \<open>p\<close>.\<close>

definition releaseLock :: "nat \<Rightarrow> nat \<Rightarrow> server \<Rightarrow> server" where
  "releaseLock rid p st =
     st\<lparr>downloadLocks := (downloadLocks st)(subId (requests st rid) := None),
        resolvedLocks := insert p (resolvedLocks st)\<rparr>"

text \<open>After \<open>await getClient(config)\<close>, up to \<open>await client.downloadSubtitle(subId, decoded)\<close>.\<close>

definition clientDone :: "platform \<Rightarrow> nat \<Rightarrow> clientOutcome \<Rightarrow> server \<Rightarrow> server" where
  "clientDone pf rid outcome st =
     (case pcs st rid of
        AwaitClient p \<Rightarrow>
          (case outcome of
             ClientThrows \<Rightarrow> catchError None rid st
           | ClientNull \<Rightarrow> finish rid (plain 500 (S ''Login failed'')) (releaseLock rid p st)
           | ClientOk \<Rightarrow>
               (case decodeURIComponent pf (linkFile (requests st rid)) of
                  None \<Rightarrow> catchError None rid st
                | Some decoded \<Rightarrow>
                    st\<lparr>fetches := fetches st @ [(subId (requests st rid), decoded)],
                       pcs := (pcs st)(rid := AwaitDownload p)\<rparr>))
      | _ \<Rightarrow> st)"

text \<open>After \<open>await client.downloadSubtitle(subId, decoded)\<close>, to the end of the handler.\<close>

definition limitReached :: "nat \<Rightarrow> nat \<Rightarrow> server \<Rightarrow> server" where
  "limitReached rid p st =
     (let isOmni = isOmniOf (requests st rid) in
      finish rid
        \<lparr>status = 200,
         contentType = Some (if isOmni then S ''text/vtt; charset=utf-8''
                             else S ''text/plain; charset=utf-8''),
         contentDisposition = None,
         body = limitMsg isOmni\<rparr>
        (releaseLock rid p st))"

definition downloadDone :: "platform \<Rightarrow> nat \<Rightarrow> downloadOutcome \<Rightarrow> int \<Rightarrow> server \<Rightarrow> server" where
  "downloadDone pf rid outcome now st =
     (case pcs st rid of
        AwaitDownload p \<Rightarrow>
          (case outcome of
             DownloadThrows \<Rightarrow> catchError None rid st
           | DownloadNull \<Rightarrow> limitReached rid p st
           | DownloadFiles [] \<Rightarrow> limitReached rid p st
           | DownloadFiles (file # _) \<Rightarrow>
               (let rq = requests st rid;
                    utf8Content = ensureUtf8 (decode pf) (fileData file);
                    st1 = st\<lparr>subtitleCache := (subtitleCache st)(cacheKey rq \<mapsto>
                               \<lparr>content = utf8Content, filename = fileName file, time = now\<rparr>),
                             r2Puts := r2Puts st @ [(subId rq, utf8Content, fileName file)]\<rparr>
                in sendInsideTry rid (sendSub pf (isOmniOf rq) utf8Content (fileName file))
                     (releaseLock rid p st1)))
      | _ \<Rightarrow> st)"

text \<open>
  The events that let a handler go on, with what the awaited call came back with and,
  where the handler reads the clock, the time.
\<close>

datatype serve_event =
    Arrive nat request int
  | R2Done nat "(jsstring \<times> jsstring) option" int
  | LockDone nat
  | ClientDone nat clientOutcome
  | DownloadDone nat downloadOutcome int

fun serveStep :: "platform \<Rightarrow> serve_event \<Rightarrow> server \<Rightarrow> server" where
  "serveStep pf (Arrive rid rq now) st = arrive pf rid rq now st"
| "serveStep pf (R2Done rid r now) st = r2Done pf rid r now st"
| "serveStep pf (LockDone rid) st = lockDone pf rid st"
| "serveStep pf (ClientDone rid outcome) st = clientDone pf rid outcome st"
| "serveStep pf (DownloadDone rid outcome now) st = downloadDone pf rid outcome now st"

definition serveRun :: "platform \<Rightarrow> serve_event list \<Rightarrow> server \<Rightarrow> server" where
  "serveRun pf evs st = fold (serveStep pf) evs st"

text \<open>The server after its start: empty maps, no request yet.\<close>

definition serverInit :: server where
  "serverInit =
     \<lparr>subtitleCache = Map.empty, downloadLocks = Map.empty, resolvedLocks = {}, nextLock = 0,
      fetches = [], r2Puts = [], requests = (\<lambda>_. \<lparr>omni = None, subId = [], linkFile = []\<rparr>),
      pcs = (\<lambda>_. NotStarted)\<rparr>"

section \<open>Requests for one subtitle\<close>

text \<open>
  A platform for the examples: the UTF-8 decoder is the one above, the other decoders and
  \<open>encodeURIComponent\<close> are left open, and \<open>decodeURIComponent\<close> gives its argument
  back, as it does for a link token without a percent sign. The examples ask for the
  subtitle 123456 with the link token \<open>Iron-Man-123456\<close>; the archive holds one file.
  \<open>zelezny\<close> is a file whose name begins with the letter Z with caron, the code unit
  381, and \<open>loneSurrogate\<close> one whose name begins with a high surrogate without its
  partner.
\<close>

definition plainPlatform ::
  "(byte list \<Rightarrow> jsstring) \<Rightarrow> (byte list \<Rightarrow> jsstring) \<Rightarrow> (jsstring \<Rightarrow> jsstring option)
     \<Rightarrow> platform" where
  "plainPlatform d16 d1250 enc =
     \<lparr>decode = \<lparr>utf8 = utf8Decode, utf16le = d16, win1250 = d1250\<rparr>,
      encodeURIComponent = enc, decodeURIComponent = Some\<rparr>"

definition ironMan :: "bool \<Rightarrow> request" where
  "ironMan om = \<lparr>omni = Some om, subId = S ''123456'', linkFile = S ''Iron-Man-123456''\<rparr>"

definition srtFile :: subFile where
  "srtFile = \<lparr>fileName = S ''Iron.Man.srt'',
              fileData = [0x31, 0x0A, 0x48, 0x69, 0x0A]\<rparr>"













text \<open>
  A handler \<open>w\<close> that waits for a lock promise \<open>p\<close> which is not resolved and whose
  resolve function no handler holds any more.
\<close>

definition stuck :: "nat \<Rightarrow> nat \<Rightarrow> server \<Rightarrow> bool" where
  "stuck w p st =
     (pcs st w = AwaitLock p \<and> p \<notin> resolvedLocks st \<and> p < nextLock st
      \<and> (\<forall>r. pcs st r \<noteq> AwaitClient p \<and> pcs st r \<noteq> AwaitDownload p))"

text \<open>
  Three runs of two requests for the same subtitle. In \<open>throwRun\<close> the download of the
  first request throws while the second waits for the lock. In \<open>nullRun\<close> the download
  of the first request gives \<open>null\<close>, and the second downloads after its wait. In
  \<open>raceRun\<close> the second request is still waiting for the durable store when the first
  one ends, and downloads again. \<open>waitingRun\<close> ends with the first request downloading
  and the second waiting for its lock.
\<close>

definition throwRun :: "serve_event list" where
  "throwRun = [Arrive 0 (ironMan False) 1000, R2Done 0 None 1001, ClientDone 0 ClientOk,
               Arrive 1 (ironMan False) 1002, R2Done 1 None 1003,
               DownloadDone 0 DownloadThrows 31000]"

definition nullRun :: "serve_event list" where
  "nullRun = [Arrive 0 (ironMan False) 1000, R2Done 0 None 1001, ClientDone 0 ClientOk,
              Arrive 1 (ironMan False) 1002, R2Done 1 None 1003,
              DownloadDone 0 DownloadNull 5000, LockDone 1, ClientDone 1 ClientOk,
              DownloadDone 1 (DownloadFiles [srtFile]) 9000]"


definition waitingRun :: "serve_event list" where
  "waitingRun = [Arrive 0 (ironMan False) 1000, R2Done 0 None 1001, ClientDone 0 ClientOk,
                 Arrive 1 (ironMan True) 1002, R2Done 1 None 1003]"

section \<open>The list of subtitles\<close>

text \<open>
  The fields of a search result that the response is built from (\<open>id\<close>,
  \<open>linkFile\<close>, \<open>title\<close>, \<open>version\<close>, \<open>lang\<close>), a result with its score, a
  subtitle the user has uploaded, and an entry of the response.
\<close>

record searchResult =
  resultId :: jsstring
  resultLinkFile :: jsstring
  resultTitle :: jsstring
  resultVersion :: "jsstring option"
  resultLang :: jsstring

record scoredResult =
  sub :: searchResult
  score :: int

record customSub =
  customKey :: jsstring
  customFilename :: jsstring
  customLabel :: jsstring

record subtitle =
  subtitleId :: jsstring
  url :: jsstring
  lang :: jsstring
  SubEncoding :: jsstring
  SubFormat :: jsstring

text \<open>The string literals of the source that are not ASCII, as code units.\<close>

definition iconCached :: jsstring where "iconCached = [9989]"
definition iconDownload :: jsstring where "iconDownload = [11015, 65039]"
definition iconStar :: jsstring where "iconStar = [11088]"
definition iconPin :: jsstring where "iconPin = [55357, 56524]"
definition langCzech :: jsstring where "langCzech = [268, 101, 353, 116, 105, 110, 97]"
definition langSlovak :: jsstring where "langSlovak = [83, 108, 111, 118, 101, 110, 269, 105, 110, 97]"

definition NUM_EMOJI :: "jsstring list" where
  "NUM_EMOJI =
     [[48, 65039, 8419],
      [49, 65039, 8419],
      [50, 65039, 8419],
      [51, 65039, 8419],
      [52, 65039, 8419],
      [53, 65039, 8419],
      [54, 65039, 8419],
      [55, 65039, 8419],
      [56, 65039, 8419],
      [57, 65039, 8419],
      [55357, 56607]]"

text \<open>The decimal digits of a number, as a template literal writes it.\<close>

function decimal :: "nat \<Rightarrow> jsstring" where
  "decimal n = (if n < 10 then [48 + n] else decimal (n div 10) @ [48 + n mod 10])"
  by pat_completeness auto
termination
  by (relation "measure id") auto

declare decimal.simps [simp del]

text \<open>\<open>NUM_EMOJI[n] || `${n}`\<close>\<close>

definition numberEmoji :: "nat \<Rightarrow> jsstring" where
  "numberEmoji n = (case elemAt NUM_EMOJI n of Some e \<Rightarrow> e | None \<Rightarrow> decimal n)"

text \<open>\<open>sub.version || sub.title || ''\<close>\<close>

definition versionOrTitle :: "searchResult \<Rightarrow> jsstring" where
  "versionOrTitle r =
     (case resultVersion r of
        Some v \<Rightarrow> if v \<noteq> [] then v else resultTitle r
      | None \<Rightarrow> resultTitle r)"

definition getQualityEmoji :: "(jsstring \<Rightarrow> jsstring) \<Rightarrow> jsstring \<Rightarrow> jsstring" where
  "getQualityEmoji lc version =
     (let v = lc version in
      if strIncludes v (S ''remux'') then [55357, 56462]
      else if strIncludes v (S ''bluray'') \<or> strIncludes v (S ''blu-ray'') \<or> strIncludes v (S ''bdrip'')
              \<or> strIncludes v (S ''brrip'') \<or> strIncludes v (S ''2160p'') \<or> strIncludes v (S ''4k'')
        then [55357, 57314]
      else if strIncludes v (S ''web-dl'') \<or> strIncludes v (S ''webdl'') \<or> strIncludes v (S ''webrip'')
              \<or> strIncludes v (S ''web'')
        then [55357, 57313]
      else if strIncludes v (S ''hdtv'') then [55357, 57312]
      else if strIncludes v (S ''dvdrip'') \<or> strIncludes v (S ''dvd'') then [55357, 56628]
      else if strIncludes v (S ''cam'') \<or> strIncludes v (S ''telesync'') then [9899]
      else [])"

definition buildLabel :: "searchResult \<Rightarrow> int \<Rightarrow> bool \<Rightarrow> jsstring" where
  "buildLabel r sc hasReleaseTags =
     (let label = versionOrTitle r in
      if hasReleaseTags \<and> sc > 0 then iconStar @ S '' '' @ label else label)"

text \<open>
  \<open>Array.prototype.sort\<close> with a comparison function is stable; for a comparison that
  orders the elements by a key the result is that of sorting by insertion, each element
  going in front of the first element it does not come after.
\<close>

fun insertBy :: "('a \<Rightarrow> 'a \<Rightarrow> int) \<Rightarrow> 'a \<Rightarrow> 'a list \<Rightarrow> 'a list" where
  "insertBy cmp x [] = [x]"
| "insertBy cmp x (y # ys) = (if cmp x y \<le> 0 then x # y # ys else y # insertBy cmp x ys)"

definition sortBy :: "('a \<Rightarrow> 'a \<Rightarrow> int) \<Rightarrow> 'a list \<Rightarrow> 'a list" where
  "sortBy cmp xs = foldr (insertBy cmp) xs []"

text \<open>The comparison of the sort for Omni: cached and matching results first.\<close>

definition omniRank :: "jsstring set \<Rightarrow> bool \<Rightarrow> scoredResult \<Rightarrow> int" where
  "omniRank r2CachedIds hasReleaseTags a =
     (if resultId (sub a) \<in> r2CachedIds then 2 else 0)
     + (if score a > 0 \<and> hasReleaseTags then 1 else 0)"

definition omniCompare :: "jsstring set \<Rightarrow> bool \<Rightarrow> scoredResult \<Rightarrow> scoredResult \<Rightarrow> int" where
  "omniCompare r2CachedIds hasReleaseTags a b =
     (let d = omniRank r2CachedIds hasReleaseTags b - omniRank r2CachedIds hasReleaseTags a
      in if d \<noteq> 0 then d else score b - score a)"

text \<open>
  What a request for the list fixes: the host, the configuration string, whether the
  configuration is for Omni, whether the playing file has release tags, and the index of
  the subtitles in the durable store. \<open>lowerCase\<close> and \<open>uriEncode\<close> stand for
  \<open>toLowerCase\<close> and for \<open>encodeURIComponent\<close>, which is total on the link tokens and
  on the file names it is given here.
\<close>

record listing =
  host :: jsstring
  configStr :: jsstring
  isOmni :: bool
  hasReleaseTags :: bool
  r2CachedIds :: "jsstring set"
  lowerCase :: "jsstring \<Rightarrow> jsstring"
  uriEncode :: "jsstring \<Rightarrow> jsstring"

definition subUrl :: "listing \<Rightarrow> searchResult \<Rightarrow> jsstring" where
  "subUrl cx r =
     host cx @ S ''/sub/'' @ configStr cx @ S ''/'' @ resultId r @ S ''/'' @ uriEncode cx (resultLinkFile r)"

text \<open>
  The function that \<open>map\<close> applies to one scored result; \<open>omniCounters\<close> goes in and
  comes out.
\<close>

definition siteEntry ::
  "listing \<Rightarrow> (jsstring \<Rightarrow> nat) \<Rightarrow> scoredResult \<Rightarrow> subtitle \<times> (jsstring \<Rightarrow> nat)" where
  "siteEntry cx omniCounters sr =
     (let r = sub sr;
          cached = (resultId r \<in> r2CachedIds cx);
          icon = (if cached then iconCached else iconDownload)
      in if isOmni cx
         then (let star = (if hasReleaseTags cx \<and> score sr > 0 then iconStar else []);
                   quality = getQualityEmoji (lowerCase cx) (versionOrTitle r);
                   groupKey = icon @ star @ quality;
                   counters = omniCounters(groupKey := omniCounters groupKey + 1);
                   num = numberEmoji (counters groupKey)
               in (\<lparr>subtitleId = S ''titulky-'' @ resultId r, url = subUrl cx r,
                    lang = icon @ star @ quality @ num, SubEncoding = S ''UTF-8'',
                    SubFormat = S ''vtt''\<rparr>, counters))
         else (let label = buildLabel r (score sr) (hasReleaseTags cx);
                   name = (if label \<noteq> [] then label
                           else if resultLang r = S ''cze'' then langCzech
                           else if resultLang r = S ''slk'' then langSlovak
                           else resultLang r)
               in (\<lparr>subtitleId = S ''titulky-'' @ resultId r, url = subUrl cx r,
                    lang = icon @ S '' '' @ name, SubEncoding = S ''UTF-8'',
                    SubFormat = S ''srt''\<rparr>, omniCounters)))"

fun siteEntries ::
  "listing \<Rightarrow> (jsstring \<Rightarrow> nat) \<Rightarrow> scoredResult list \<Rightarrow> subtitle list \<times> (jsstring \<Rightarrow> nat)" where
  "siteEntries cx omniCounters [] = ([], omniCounters)"
| "siteEntries cx omniCounters (sr # rest) =
     (let (e, counters) = siteEntry cx omniCounters sr;
          (es, counters') = siteEntries cx counters rest
      in (e # es, counters'))"

text \<open>\<open>cs.filename.split('.').pop().toLowerCase()\<close>\<close>

definition extensionOf :: "(jsstring \<Rightarrow> jsstring) \<Rightarrow> jsstring \<Rightarrow> jsstring" where
  "extensionOf lc name = lc (last (splitOn 46 [] name))"

text \<open>The body of the loop over the custom subtitles: one \<open>unshift\<close>.\<close>

definition customEntry ::
  "listing \<Rightarrow> jsstring \<Rightarrow> (jsstring \<Rightarrow> nat) \<Rightarrow> customSub \<Rightarrow> subtitle \<times> (jsstring \<Rightarrow> nat)" where
  "customEntry cx customImdbId omniCounters cs =
     (let ext = extensionOf (lowerCase cx) (customFilename cs);
          isAssType = (ext = S ''ass'' \<or> ext = S ''ssa'');
          raw = (isOmni cx \<and> isAssType);
          subFormat = (if raw then ext
                       else if isAssType \<or> ext = S ''vtt'' then S ''vtt'' else S ''srt'');
          subUrl = host cx @ (if raw then S ''/custom-sub-raw/'' else S ''/custom-sub/'')
                   @ customImdbId @ S ''/'' @ uriEncode cx (customFilename cs)
      in if isOmni cx
         then (let counters = omniCounters(iconPin := omniCounters iconPin + 1);
                   num = numberEmoji (counters iconPin)
               in (\<lparr>subtitleId = S ''custom-'' @ customKey cs, url = subUrl,
                    lang = iconPin @ num, SubEncoding = S ''UTF-8'', SubFormat = subFormat\<rparr>,
                   counters))
         else (\<lparr>subtitleId = S ''custom-'' @ customKey cs, url = subUrl,
                lang = iconPin @ S '' '' @ customLabel cs, SubEncoding = S ''UTF-8'',
                SubFormat = subFormat\<rparr>, omniCounters))"

fun addCustomSubs ::
  "listing \<Rightarrow> jsstring \<Rightarrow> (jsstring \<Rightarrow> nat) \<Rightarrow> subtitle list \<Rightarrow> customSub list \<Rightarrow> subtitle list" where
  "addCustomSubs cx customImdbId omniCounters subtitles [] = subtitles"
| "addCustomSubs cx customImdbId omniCounters subtitles (cs # rest) =
     (let (e, counters) = customEntry cx customImdbId omniCounters cs
      in addCustomSubs cx customImdbId counters (e # subtitles) rest)"

text \<open>
  The response of the listing, from the filtered and scored results, sorted by score,
  and the custom subtitles that \<open>r2GetCustomSubs\<close> has found.
\<close>

definition rankedResults :: "listing \<Rightarrow> scoredResult list \<Rightarrow> scoredResult list" where
  "rankedResults cx scoredResults =
     (if isOmni cx then sortBy (omniCompare (r2CachedIds cx) (hasReleaseTags cx)) scoredResults
      else scoredResults)"

definition buildSubtitles ::
  "listing \<Rightarrow> scoredResult list \<Rightarrow> jsstring \<Rightarrow> customSub list \<Rightarrow> subtitle list" where
  "buildSubtitles cx scoredResults customImdbId customSubs =
     (let (subtitles, omniCounters) =
            siteEntries cx (\<lambda>_. 0) (take 10 (rankedResults cx scoredResults))
      in addCustomSubs cx customImdbId omniCounters subtitles customSubs)"

section \<open>Properties of the SRT conversion\<close>

lemma replaceCrLf_noCR: "13 \<notin> set s \<Longrightarrow> replaceCrLf s = s"
  by (induction s rule: replaceCrLf.induct) auto

lemma replaceCrLf_line: "13 \<notin> set l \<Longrightarrow> replaceCrLf (l @ 13 # 10 # r) = l @ 10 # replaceCrLf r"
proof (induction l)
  case Nil
  then show ?case by simp
next
  case (Cons a l)
  then show ?case by (cases "l @ 13 # 10 # r") auto
qed

lemma replaceCrLf_join:
  "\<forall>l \<in> set ls. 13 \<notin> set l \<Longrightarrow> replaceCrLf (joinWith [13, 10] ls) = joinWith [10] ls"
proof (induction ls)
  case Nil
  then show ?case by simp
next
  case (Cons x ls)
  then show ?case by (cases ls) (simp_all add: replaceCrLf_noCR replaceCrLf_line)
qed

lemma joinWith_noCR: "\<forall>l \<in> set ls. 13 \<notin> set l \<Longrightarrow> 13 \<notin> set (joinWith [10] ls)"
proof (induction ls)
  case Nil
  then show ?case by simp
next
  case (Cons x ls)
  then show ?case by (cases ls) simp_all
qed

lemma srtToVtt_crlf:
  "\<forall>l \<in> set ls. 13 \<notin> set l \<Longrightarrow> srtToVtt (joinWith [13, 10] ls) = srtToVtt (joinWith [10] ls)"
  by (simp add: srtToVtt_def replaceCrLf_join replaceCrLf_noCR joinWith_noCR)

lemma trim_digits: "isDigit a \<Longrightarrow> isDigit i \<Longrightarrow> trim (a # xs @ [i]) = a # xs @ [i]"
  by (auto simp: trim_def trimStart_def trimEnd_def isDigit_def isSpace_def)

lemma srtToVtt_time:
  assumes "isDigit a" "isDigit b" "isDigit c" "isDigit d" "isDigit e" "isDigit f"
    "isDigit g" "isDigit h" "isDigit i"
  shows "srtToVtt [a, b, 58, c, d, 58, e, f, 44, g, h, i] =
         S ''WEBVTT'' @ [10, 10] @ [a, b, 58, c, d, 58, e, f, 46, g, h, i] @ [10]"
  using assms trim_digits [of a i "[b, 58, c, d, 58, e, f, 46, g, h]"]
  by (simp add: srtToVtt_def matchSrtTime_def isDigit_def)

lemma srtToVtt_header: "take 8 (srtToVtt t) = S ''WEBVTT'' @ [10, 10]"
  by (simp add: srtToVtt_def S_def)

lemma srtToVtt_example:
  "srtToVtt (S ''1\<newline>00:00:01,000 --> 00:00:02,500\<newline>Hello\<newline>'') =
   S ''WEBVTT\<newline>\<newline>1\<newline>00:00:01.000 --> 00:00:02.500\<newline>Hello\<newline>''"
  by (simp add: srtToVtt_def S_def matchSrtTime_def isDigit_def trim_def trimStart_def
      trimEnd_def isSpace_def)

text \<open>
  Claim C8. \<open>srtToVtt\<close> maps the one-cue text of the specification to the text the
  specification gives. In general the result begins with the header \<open>WEBVTT\<close> and an
  empty line; lines joined by CR LF give the same result as the same lines joined by LF;
  and a time stamp \<open>HH:MM:SS,mmm\<close> comes out as \<open>HH:MM:SS.mmm\<close>.
\<close>

theorem srtToVtt_converts:
  "srtToVtt (S ''1\<newline>00:00:01,000 --> 00:00:02,500\<newline>Hello\<newline>'') =
     S ''WEBVTT\<newline>\<newline>1\<newline>00:00:01.000 --> 00:00:02.500\<newline>Hello\<newline>''
   \<and> take 8 (srtToVtt t) = S ''WEBVTT'' @ [10, 10]
   \<and> ((\<forall>l \<in> set ls. 13 \<notin> set l) \<longrightarrow>
        srtToVtt (joinWith [13, 10] ls) = srtToVtt (joinWith [10] ls))
   \<and> (list_all isDigit [a, b, c, d, e, f, g, h, i] \<longrightarrow>
        srtToVtt [a, b, 58, c, d, 58, e, f, 44, g, h, i] =
        S ''WEBVTT'' @ [10, 10] @ [a, b, 58, c, d, 58, e, f, 46, g, h, i] @ [10])"
  using srtToVtt_example srtToVtt_header srtToVtt_crlf srtToVtt_time by simp

theorem srtToVtt_converts_witness:
  "list_all (\<lambda>l. 13 \<notin> set l) [S ''1'', S ''Hello, you'']
   \<and> srtToVtt (joinWith [13, 10] [S ''1'', S ''Hello, you'']) =
       srtToVtt (joinWith [10] [S ''1'', S ''Hello, you''])
   \<and> list_all isDigit [48, 49, 50, 51, 52, 53, 54, 55, 56]
   \<and> srtToVtt (S ''01:23:45,678'') = S ''WEBVTT\<newline>\<newline>01:23:45.678\<newline>''"
  using srtToVtt_converts [of "[]" "[S ''1'', S ''Hello, you'']" 48 49 50 51 52 53 54 55 56]
  by (simp add: S_def isDigit_def)

section \<open>Properties of the title filter\<close>

lemma startsWith_prefix: "startsWith s p = prefix p s"
  by (induction s p rule: startsWith.induct) auto

lemma upperAscii_eq:
  "\<not> (65 \<le> c \<and> c \<le> 90) \<Longrightarrow> \<not> (65 \<le> p \<and> p \<le> 90) \<Longrightarrow> (upperAscii c = upperAscii p) = (c = p)"
  by (auto simp: upperAscii_def split: if_splits)

lemma startsWithCI_prefix:
  "list_all (\<lambda>c. \<not> (65 \<le> c \<and> c \<le> 90)) r \<Longrightarrow> list_all (\<lambda>c. \<not> (65 \<le> c \<and> c \<le> 90)) w
   \<Longrightarrow> startsWithCI r w = prefix w r"
  by (induction r w rule: startsWithCI.induct) (auto simp: upperAscii_eq)

lemma normal_noUpper: "normalText s \<Longrightarrow> list_all (\<lambda>c. \<not> (65 \<le> c \<and> c \<le> 90)) s"
  by (auto simp: normalText_def list_all_iff isLowerAlnum_def isDigit_def isSpace_def)

lemma set_trim: "set (trim s) \<subseteq> set s"
proof -
  have "set (trimEnd t) \<subseteq> set t" for t
    using set_dropWhileD [of _ isSpace "rev t"] by (auto simp: trimEnd_def)
  moreover have "set (trimStart s) \<subseteq> set s"
    using set_dropWhileD [of _ isSpace s] by (auto simp: trimStart_def)
  ultimately show ?thesis unfolding trim_def by blast
qed

lemma normal_trim: "normalText s \<Longrightarrow> normalText (trim s)"
  using set_trim [of s] by (auto simp: normalText_def list_all_iff)

lemma normal_drop: "normalText s \<Longrightarrow> normalText (drop n s)"
  by (auto simp: normalText_def list_all_iff dest: in_set_dropD)

lemma normal_normalize: "normalText (normalizeTitle lc s)"
  unfolding normalizeTitle_def by (rule normal_trim) (simp add: normalText_def list_all_iff)

lemma releaseWords_noUpper:
  "w \<in> set releaseWords \<Longrightarrow> list_all (\<lambda>c. \<not> (65 \<le> c \<and> c \<le> 90)) w"
  by (auto simp: releaseWords_def S_def)

lemma year_iff:
  "startsWithYear r =
   (\<exists>a b c d tl. r = a # b # c # d # tl \<and> isDigit a \<and> isDigit b \<and> isDigit c \<and> isDigit d)"
proof (cases r)
  case Nil then show ?thesis by (simp add: startsWithYear_def)
next
  case (Cons a r1)
  show ?thesis
  proof (cases r1)
    case Nil with Cons show ?thesis by (simp add: startsWithYear_def)
  next
    case (Cons b r2)
    note c2 = this
    show ?thesis
    proof (cases r2)
      case Nil with \<open>r = a # r1\<close> c2 show ?thesis by (simp add: startsWithYear_def)
    next
      case (Cons c r3)
      with \<open>r = a # r1\<close> c2 show ?thesis by (cases r3) (auto simp: startsWithYear_def)
    qed
  qed
qed

lemma episode_iff:
  assumes "normalText r"
  shows "(startsWithCI r (S ''s'') \<and> list_all isDigit (take 1 (drop 1 r)) \<and> length r \<ge> 2)
         = (\<exists>d tl. r = 115 # d # tl \<and> isDigit d)"
proof -
  have "startsWithCI r (S ''s'') = prefix [115] r"
    using startsWithCI_prefix [OF normal_noUpper [OF assms], of "S ''s''"] by (simp add: S_def)
  then show ?thesis
    by (cases r; cases "tl r") (auto simp: S_def)
qed

lemma token_iff:
  assumes "normalText r"
  shows "startsWithReleaseToken r =
         ((\<exists>d tl. r = 115 # d # tl \<and> isDigit d) \<or> (\<exists>w \<in> set releaseWords. prefix w r))"
proof -
  have "list_ex (startsWithCI r) releaseWords = (\<exists>w \<in> set releaseWords. prefix w r)"
    using startsWithCI_prefix [OF normal_noUpper [OF assms]] releaseWords_noUpper
    by (auto simp: list_ex_iff)
  then show ?thesis
    unfolding startsWithReleaseToken_def using episode_iff [OF assms] by simp
qed

lemma follows_iff:
  assumes "normalText rest"
  shows "(trim rest = [] \<or> startsWithYear (trim rest) \<or> startsWithReleaseToken (trim rest))
         = followsTitle rest"
  unfolding followsTitle_def Let_def
  using token_iff [OF normal_trim [OF assms]] year_iff [of "trim rest"] by blast

lemma match_iff:
  "isExactTitleMatch lc m s =
   (m \<noteq> [] \<and> s \<noteq> [] \<and> specTitleMatch (normalizeTitle lc m) (normalizeTitle lc s))"
proof (cases "m = [] \<or> s = []")
  case True
  then show ?thesis by (auto simp: isExactTitleMatch_def)
next
  case False
  define movie where "movie = normalizeTitle lc m"
  define sb where "sb = normalizeTitle lc s"
  have n: "normalText (drop (length movie) sb)"
    unfolding sb_def by (rule normal_drop [OF normal_normalize])
  have "specTitleMatch movie sb =
        (sb = movie \<or> (prefix movie sb \<and> followsTitle (drop (length movie) sb)))"
    unfolding specTitleMatch_def by (auto simp: prefix_def)
  then show ?thesis
    using False follows_iff [OF n]
    by (auto simp: isExactTitleMatch_def Let_def startsWith_prefix movie_def sb_def)
qed

lemmas title_eval = S_def trim_def trimStart_def trimEnd_def isSpace_def isDigit_def upperAscii_def
  toLowerCaseLatin1_def lowerLatin1_def isExactTitleMatch_def normalizeTitle_def isLowerAlnum_def
  startsWithYear_def startsWithReleaseToken_def releaseWords_def Let_def

lemma iron_man_year: "isExactTitleMatch toLowerCaseLatin1 (S ''iron man'') (S ''iron man 2008 bluray'')"
  by (simp add: title_eval)

lemma iron_man_exact: "isExactTitleMatch toLowerCaseLatin1 (S ''iron man'') (S ''iron man'')"
  by (simp add: title_eval)

lemma iron_man_2: "\<not> isExactTitleMatch toLowerCaseLatin1 (S ''iron man'') (S ''iron man 2'')"
  by (simp add: title_eval)

text \<open>
  Claim C5, as the code has it. For every lower-casing function, target and candidate,
  the filter accepts exactly when neither text is empty and, after both are normalised
  to lower-case letters, digits and white space, the candidate is the target, or is the
  target followed by nothing, by four digits, or by a release token. The target
  \<open>iron man\<close> accepts \<open>iron man 2008 bluray\<close> and \<open>iron man\<close> and rejects
  \<open>iron man 2\<close>.
\<close>

theorem title_filter_iff:
  "(isExactTitleMatch lc movieName subText \<longleftrightarrow>
      movieName \<noteq> [] \<and> subText \<noteq> []
      \<and> specTitleMatch (normalizeTitle lc movieName) (normalizeTitle lc subText))
   \<and> isExactTitleMatch toLowerCaseLatin1 (S ''iron man'') (S ''iron man 2008 bluray'')
   \<and> isExactTitleMatch toLowerCaseLatin1 (S ''iron man'') (S ''iron man'')
   \<and> \<not> isExactTitleMatch toLowerCaseLatin1 (S ''iron man'') (S ''iron man 2'')"
  using match_iff [of lc movieName subText] iron_man_year iron_man_exact iron_man_2 by blast

text \<open>
  The claim as it is written fails on empty texts: an empty candidate equals an empty
  target, and the candidate \<open>2008\<close> is the empty target followed by four digits, but the
  filter rejects both, since it rejects every empty target.
\<close>

theorem title_filter_empty_counterexample:
  "specTitleMatch (normalizeTitle toLowerCaseLatin1 []) (normalizeTitle toLowerCaseLatin1 [])
   \<and> \<not> isExactTitleMatch toLowerCaseLatin1 [] []
   \<and> specTitleMatch (normalizeTitle toLowerCaseLatin1 []) (normalizeTitle toLowerCaseLatin1 (S ''2008''))
   \<and> \<not> isExactTitleMatch toLowerCaseLatin1 [] (S ''2008'')"
  by (simp add: title_eval specTitleMatch_def followsTitle_def)

section \<open>Properties of the encoding detection\<close>

lemma byteIs_bom8:
  "(byteIs buffer 0 0xEF \<and> byteIs buffer 1 0xBB \<and> byteIs buffer 2 0xBF) = prefix [0xEF, 0xBB, 0xBF] buffer"
  by (cases buffer; cases "tl buffer"; cases "tl (tl buffer)") (auto simp: byteIs_def elemAt_def)

lemma byteIs_bom16:
  "(byteIs buffer 0 0xFF \<and> byteIs buffer 1 0xFE) = prefix [0xFF, 0xFE] buffer"
  by (cases buffer; cases "tl buffer") (auto simp: byteIs_def elemAt_def)

lemma replacements_iff: "(countReplacements str > 0) = (65533 \<in> set str)"
  by (auto simp: countReplacements_def filter_empty_conv)

lemma places_Cons:
  "suspiciousPlaces (c # s) = (if susAt c s then {0} else {}) \<union> Suc ` suspiciousPlaces s"
proof (rule set_eqI)
  fix i
  show "(i \<in> suspiciousPlaces (c # s)) = (i \<in> (if susAt c s then {0} else {}) \<union> Suc ` suspiciousPlaces s)"
  proof (cases i)
    case 0
    then show ?thesis by (cases s) (auto simp: suspiciousPlaces_def susAt_def)
  next
    case (Suc j)
    then show ?thesis by (auto simp: suspiciousPlaces_def image_iff)
  qed
qed

lemma places_finite: "finite (suspiciousPlaces s)"
proof -
  have "suspiciousPlaces s \<subseteq> {..<length s}" by (auto simp: suspiciousPlaces_def)
  then show ?thesis by (rule finite_subset) simp
qed

lemma places_Nil: "suspiciousPlaces [] = {}" "suspiciousPlaces [c] = {}"
  by (auto simp: suspiciousPlaces_def)

lemma card_places_Cons:
  "card (suspiciousPlaces (c # s)) = (if susAt c s then 1 else 0) + card (suspiciousPlaces s)"
proof -
  have "card (Suc ` suspiciousPlaces s) = card (suspiciousPlaces s)"
    by (rule card_image) simp
  moreover have "0 \<notin> Suc ` suspiciousPlaces s" by auto
  moreover have "finite (Suc ` suspiciousPlaces s)" using places_finite by simp
  ultimately show ?thesis by (simp add: places_Cons)
qed

lemma countSuspicious_card: "countSuspicious s = card (suspiciousPlaces s)"
proof (induction s rule: countSuspicious.induct)
  case 1
  then show ?case by (simp add: places_Nil)
next
  case (2 c)
  then show ?case by (simp add: places_Nil)
next
  case (3 c d cs)
  show ?case
  proof (cases "192 \<le> c \<and> c \<le> 195 \<and> 128 \<le> d \<and> d \<le> 191")
    case True
    then have "\<not> susAt d cs" by (auto simp: susAt_def split: list.splits)
    with True 3 show ?thesis by (simp add: card_places_Cons susAt_def)
  next
    case False
    then have "\<not> susAt c (d # cs)" by (simp add: susAt_def)
    with False 3 show ?thesis by (auto simp: card_places_Cons [of c])
  qed
qed

lemma ratio_iff: "n > 0 \<Longrightarrow> (real a / real n > 2 / 100) = (100 * a > 2 * n)"
proof -
  assume n: "n > 0"
  have "(real a / real n > 2 / 100) = (real (2 * n) < real (100 * a))"
    using n by (simp add: field_simps)
  then show ?thesis using of_nat_less_iff by blast
qed

lemma isValidUtf8_iff:
  "isValidUtf8 str = (\<not> (65533 \<in> set str \<or> (length str > 50 \<and> 100 * card (suspiciousPlaces str) > 2 * length str)))"
proof (cases "length str > 50")
  case True
  then have "length str > 0" by (cases str) simp_all
  from ratio_iff [OF this] replacements_iff [of str] True show ?thesis
    by (simp add: isValidUtf8_def Let_def countSuspicious_card)
next
  case False
  with replacements_iff [of str] show ?thesis by (simp add: isValidUtf8_def Let_def)
qed

lemma utf8Go_numeral [simp]:
  "utf8Go cp (numeral k) lo hi (b # bs) = utf8Go cp (Suc (pred_numeral k)) lo hi (b # bs)"
  by (simp add: numeral_eq_Suc)

lemma utf8Go_ascii: "list_all (\<lambda>b. b < 128) bs \<Longrightarrow> utf8Go 0 0 128 191 bs = bs"
  by (induction bs) auto

lemma utf8Decode_ascii: "list_all (\<lambda>b. b < 0x80) buffer \<Longrightarrow> utf8Decode buffer = map unat buffer"
  unfolding utf8Decode_def
  by (rule utf8Go_ascii) (auto simp: list_all_iff word_less_nat_alt)

lemma ascii_valid:
  assumes "list_all (\<lambda>c. c < 128) str"
  shows "isValidUtf8 str"
proof -
  have "65533 \<notin> set str" using assms by (auto simp: list_all_iff)
  moreover have "suspiciousPlaces str = {}"
    using assms by (auto simp: suspiciousPlaces_def list_all_length) 
  ultimately show ?thesis by (simp add: isValidUtf8_iff)
qed

lemma ensureUtf8_ascii:
  assumes "list_all (\<lambda>b. b < 0x80) buffer" and "utf8 dec buffer = map unat buffer"
  shows "ensureUtf8 dec buffer = map unat buffer"
proof -
  have a: "list_all (\<lambda>c. c < 128) (map unat buffer)"
    using assms(1) by (auto simp: list_all_iff word_less_nat_alt)
  have "\<not> prefix [0xEF, 0xBB, 0xBF] buffer" "\<not> prefix [0xFF, 0xFE] buffer"
    using assms(1) by (auto simp: prefix_def)
  then show ?thesis
    unfolding ensureUtf8_def byteIs_bom8 byteIs_bom16
    using ascii_valid [OF a] assms(2) by (simp add: Let_def)
qed

text \<open>
  Claim C7. A buffer that begins with EF BB BF is decoded as UTF-8, one that begins with
  FF FE as UTF-16LE. Any other buffer is decoded as UTF-8, unless that text contains
  U+FFFD or is longer than 50 code units with suspicious pairs at more than 2 in 100 of
  them, and then it is decoded as CP1250. A buffer of bytes below 80 (hexadecimal) that
  the UTF-8 decoder maps to the same code units comes out unchanged, and the decoder of
  the Encoding Standard maps every such buffer to the same code units.
\<close>

theorem ensureUtf8_selects:
  "(prefix [0xEF, 0xBB, 0xBF] buffer \<longrightarrow> ensureUtf8 dec buffer = utf8 dec buffer)
   \<and> (prefix [0xFF, 0xFE] buffer \<longrightarrow> ensureUtf8 dec buffer = utf16le dec buffer)
   \<and> (\<not> prefix [0xEF, 0xBB, 0xBF] buffer \<and> \<not> prefix [0xFF, 0xFE] buffer \<longrightarrow>
        ensureUtf8 dec buffer =
          (if 65533 \<in> set (utf8 dec buffer)
              \<or> (length (utf8 dec buffer) > 50
                  \<and> 100 * card (suspiciousPlaces (utf8 dec buffer)) > 2 * length (utf8 dec buffer))
           then win1250 dec buffer else utf8 dec buffer))
   \<and> (list_all (\<lambda>b. b < 0x80) buffer \<and> utf8 dec buffer = map unat buffer \<longrightarrow>
        ensureUtf8 dec buffer = map unat buffer)
   \<and> (list_all (\<lambda>b. b < 0x80) buffer \<longrightarrow> utf8Decode buffer = map unat buffer)"
proof -
  have a: "prefix [0xFF, 0xFE] buffer \<Longrightarrow> \<not> prefix [0xEF, 0xBB, 0xBF] buffer"
    by (auto simp: prefix_def)
  have c1: "prefix [0xEF, 0xBB, 0xBF] buffer \<longrightarrow> ensureUtf8 dec buffer = utf8 dec buffer"
    unfolding ensureUtf8_def byteIs_bom8 by simp
  have c2: "prefix [0xFF, 0xFE] buffer \<longrightarrow> ensureUtf8 dec buffer = utf16le dec buffer"
    unfolding ensureUtf8_def byteIs_bom8 byteIs_bom16 using a by simp
  have c3: "\<not> prefix [0xEF, 0xBB, 0xBF] buffer \<and> \<not> prefix [0xFF, 0xFE] buffer \<longrightarrow>
        ensureUtf8 dec buffer =
          (if 65533 \<in> set (utf8 dec buffer)
              \<or> (length (utf8 dec buffer) > 50
                  \<and> 100 * card (suspiciousPlaces (utf8 dec buffer)) > 2 * length (utf8 dec buffer))
           then win1250 dec buffer else utf8 dec buffer)"
    unfolding ensureUtf8_def byteIs_bom8 byteIs_bom16 Let_def isValidUtf8_iff by simp
  have c4: "list_all (\<lambda>b. b < 0x80) buffer \<and> utf8 dec buffer = map unat buffer \<longrightarrow>
        ensureUtf8 dec buffer = map unat buffer"
    using ensureUtf8_ascii [of buffer dec] by blast
  have c5: "list_all (\<lambda>b. b < 0x80) buffer \<longrightarrow> utf8Decode buffer = map unat buffer"
    using utf8Decode_ascii [of buffer] by blast
  from c1 c2 c3 c4 c5 show ?thesis by blast
qed

theorem ensureUtf8_selects_witness:
  "\<forall>d16 d1250.
     prefix [0xEF, 0xBB, 0xBF] [0xEF, 0xBB, 0xBF, 0x41 :: byte]
     \<and> ensureUtf8 \<lparr>utf8 = utf8Decode, utf16le = d16, win1250 = d1250\<rparr> [0xEF, 0xBB, 0xBF, 0x41]
         = [65279, 65]
     \<and> prefix [0xFF, 0xFE] [0xFF, 0xFE, 0x41, 0 :: byte]
     \<and> ensureUtf8 \<lparr>utf8 = utf8Decode, utf16le = d16, win1250 = d1250\<rparr> [0xFF, 0xFE, 0x41, 0]
         = d16 [0xFF, 0xFE, 0x41, 0]
     \<and> \<not> prefix [0xEF, 0xBB, 0xBF] [0x70, 0xF8, 0xED :: byte]
     \<and> \<not> prefix [0xFF, 0xFE] [0x70, 0xF8, 0xED :: byte]
     \<and> ensureUtf8 \<lparr>utf8 = utf8Decode, utf16le = d16, win1250 = d1250\<rparr> [0x70, 0xF8, 0xED]
         = d1250 [0x70, 0xF8, 0xED]
     \<and> list_all (\<lambda>b. b < 0x80) [0x48, 0x69 :: byte]
     \<and> ensureUtf8 \<lparr>utf8 = utf8Decode, utf16le = d16, win1250 = d1250\<rparr> [0x48, 0x69] = [72, 105]"
proof (intro allI)
  fix d16 d1250
  let ?D = "\<lparr>utf8 = utf8Decode, utf16le = d16, win1250 = d1250\<rparr>"
  have e1: "utf8Decode [0xEF, 0xBB, 0xBF, 0x41] = [65279, 65]"
    by (simp add: utf8Decode_def utf8Lead_def utf16Units_def)
  have e3: "utf8Decode [0x70, 0xF8, 0xED] = [112, 65533, 65533]"
    by (simp add: utf8Decode_def utf8Lead_def utf16Units_def)
  have e4: "utf8Decode [0x48, 0x69] = [72, 105]"
    by (simp add: utf8Decode_def utf8Lead_def utf16Units_def)
  show "prefix [0xEF, 0xBB, 0xBF] [0xEF, 0xBB, 0xBF, 0x41 :: byte]
     \<and> ensureUtf8 ?D [0xEF, 0xBB, 0xBF, 0x41] = [65279, 65]
     \<and> prefix [0xFF, 0xFE] [0xFF, 0xFE, 0x41, 0 :: byte]
     \<and> ensureUtf8 ?D [0xFF, 0xFE, 0x41, 0] = d16 [0xFF, 0xFE, 0x41, 0]
     \<and> \<not> prefix [0xEF, 0xBB, 0xBF] [0x70, 0xF8, 0xED :: byte]
     \<and> \<not> prefix [0xFF, 0xFE] [0x70, 0xF8, 0xED :: byte]
     \<and> ensureUtf8 ?D [0x70, 0xF8, 0xED] = d1250 [0x70, 0xF8, 0xED]
     \<and> list_all (\<lambda>b. b < 0x80) [0x48, 0x69 :: byte]
     \<and> ensureUtf8 ?D [0x48, 0x69] = [72, 105]"
    using ensureUtf8_selects [of "[0xEF, 0xBB, 0xBF, 0x41]" ?D]
      ensureUtf8_selects [of "[0xFF, 0xFE, 0x41, 0]" ?D]
      ensureUtf8_selects [of "[0x70, 0xF8, 0xED]" ?D]
      ensureUtf8_selects [of "[0x48, 0x69]" ?D]
    by (simp add: e1 e3 e4)
qed

section \<open>Properties of the ASS conversion\<close>


















lemma takeWhile_digits2:
  "isDigit a \<Longrightarrow> isDigit b \<Longrightarrow> \<not> isDigit x \<Longrightarrow> takeWhile isDigit (a # b # x # r) = [a, b]"
  "isDigit a \<Longrightarrow> isDigit b \<Longrightarrow> \<not> isDigit x \<Longrightarrow> dropWhile isDigit (a # b # x # r) = x # r"
  by simp_all





section \<open>Properties of the list of subtitles\<close>

lemma mset_insertBy: "mset (insertBy cmp x ys) = add_mset x (mset ys)"
  by (induction ys) auto

lemma mset_sortBy: "mset (sortBy cmp xs) = mset xs"
  unfolding sortBy_def by (induction xs) (auto simp: mset_insertBy)

lemma mset_ranked: "mset (rankedResults cx scored) = mset scored"
  by (simp add: rankedResults_def mset_sortBy)

lemma length_ranked: "length (rankedResults cx scored) = length scored"
  using arg_cong [OF mset_ranked [of cx scored], of size] by simp

lemma siteEntry_id: "subtitleId (fst (siteEntry cx c sr)) = S ''titulky-'' @ resultId (sub sr)"
  by (simp add: siteEntry_def Let_def)

lemma siteEntries_ids:
  "map subtitleId (fst (siteEntries cx c rs)) = map (\<lambda>r. S ''titulky-'' @ resultId (sub r)) rs"
proof (induction rs arbitrary: c)
  case Nil
  then show ?case by simp
next
  case (Cons r rs)
  then show ?case
    using siteEntry_id [of cx c r]
    by (simp add: split_beta Let_def)
qed

lemma customEntry_id: "subtitleId (fst (customEntry cx i c cs)) = S ''custom-'' @ customKey cs"
  by (simp add: customEntry_def Let_def)

lemma addCustomSubs_shape:
  "\<exists>es. addCustomSubs cx i c subs cs = es @ subs
        \<and> map subtitleId es = rev (map (\<lambda>c. S ''custom-'' @ customKey c) cs)"
proof (induction cs arbitrary: c subs)
  case Nil
  then show ?case by simp
next
  case (Cons x cs)
  obtain e c' where e: "customEntry cx i c x = (e, c')" by (cases "customEntry cx i c x")
  from Cons [of c' "e # subs"] obtain es where
    es: "addCustomSubs cx i c' (e # subs) cs = es @ e # subs"
        "map subtitleId es = rev (map (\<lambda>c. S ''custom-'' @ customKey c) cs)" by blast
  have "subtitleId e = S ''custom-'' @ customKey x"
    using customEntry_id [of cx i c x] e by simp
  with es e show ?case
    by (intro exI [of _ "es @ [e]"]) simp
qed

lemma not_titulky: "\<not> startsWith (S ''custom-'' @ k) (S ''titulky-'')"
  by (simp add: S_def)

lemma is_titulky: "startsWith (S ''titulky-'' @ k) (S ''titulky-'')"
  by (simp add: S_def)

lemma filter_ids:
  assumes "map subtitleId es = map f xs" "\<And>x. P (f x) = b"
  shows "filter (\<lambda>e. P (subtitleId e)) es = (if b then es else [])"
proof -
  have "\<forall>e \<in> set es. P (subtitleId e) = b"
  proof
    fix e assume "e \<in> set es"
    then have "subtitleId e \<in> set (map subtitleId es)" by simp
    then have "subtitleId e \<in> set (map f xs)" using assms(1) by simp
    then show "P (subtitleId e) = b" using assms(2) by auto
  qed
  then show ?thesis by (cases b) (auto simp: filter_empty_conv filter_id_conv)
qed

lemma buildSubtitles_shape:
  "\<exists>customs sites. buildSubtitles cx scored i cs = customs @ sites
      \<and> map subtitleId customs = rev (map (\<lambda>c. S ''custom-'' @ customKey c) cs)
      \<and> map subtitleId sites =
          map (\<lambda>r. S ''titulky-'' @ resultId (sub r)) (take 10 (rankedResults cx scored))"
proof -
  obtain sites c where s: "siteEntries cx (\<lambda>_. 0) (take 10 (rankedResults cx scored)) = (sites, c)"
    by (cases "siteEntries cx (\<lambda>_. 0) (take 10 (rankedResults cx scored))")
  from addCustomSubs_shape [of cx i c sites cs] obtain es where
    es: "addCustomSubs cx i c sites cs = es @ sites"
      "map subtitleId es = rev (map (\<lambda>c. S ''custom-'' @ customKey c) cs)" by blast
  have "map subtitleId sites =
          map (\<lambda>r. S ''titulky-'' @ resultId (sub r)) (take 10 (rankedResults cx scored))"
    using siteEntries_ids [of cx "\<lambda>_. 0" "take 10 (rankedResults cx scored)"] s by simp
  with es s show ?thesis
    unfolding buildSubtitles_def by (intro exI [of _ es] exI [of _ sites]) simp
qed

lemma buildSubtitles_props:
  "length (buildSubtitles cx scored i cs) = length cs + min 10 (length scored)
   \<and> map subtitleId (take (length cs) (buildSubtitles cx scored i cs)) =
       rev (map (\<lambda>c. S ''custom-'' @ customKey c) cs)
   \<and> map subtitleId (drop (length cs) (buildSubtitles cx scored i cs)) =
       map (\<lambda>r. S ''titulky-'' @ resultId (sub r)) (take 10 (rankedResults cx scored))
   \<and> length (filter (\<lambda>e. startsWith (subtitleId e) (S ''titulky-'')) (buildSubtitles cx scored i cs))
       = min 10 (length scored)"
proof -
  from buildSubtitles_shape [of cx scored i cs] obtain customs sites where
    b: "buildSubtitles cx scored i cs = customs @ sites"
    and c: "map subtitleId customs = rev (map (\<lambda>c. S ''custom-'' @ customKey c) cs)"
    and s: "map subtitleId sites =
          map (\<lambda>r. S ''titulky-'' @ resultId (sub r)) (take 10 (rankedResults cx scored))"
    by blast
  have lc: "length customs = length cs" using arg_cong [OF c, of length] by simp
  have ls: "length sites = min 10 (length scored)"
    using arg_cong [OF s, of length] length_ranked [of cx scored] by simp
  have c': "map subtitleId customs = map (\<lambda>c. S ''custom-'' @ customKey c) (rev cs)"
    using c by (simp add: rev_map)
  have f1: "filter (\<lambda>e. startsWith (subtitleId e) (S ''titulky-'')) customs = []"
    using filter_ids [OF c', of "\<lambda>x. startsWith x (S ''titulky-'')" False] not_titulky by simp
  have f2: "filter (\<lambda>e. startsWith (subtitleId e) (S ''titulky-'')) sites = sites"
    using filter_ids [OF s, of "\<lambda>x. startsWith x (S ''titulky-'')" True] is_titulky by simp
  show ?thesis
    using lc ls c s f1 f2 by (simp add: b)
qed

text \<open>
  Claim C10. The response holds every custom subtitle, the last one first, and behind
  them the entries of the first ten of the ranked results, in their order: its length is
  the number of custom subtitles plus the smaller of 10 and the number of results, and
  exactly that many of its entries have an id of the site. The ranked results are the
  scored results in another order.
\<close>

theorem listing_capped_at_ten:
  "length (buildSubtitles cx scored i cs) = length cs + min 10 (length scored)
   \<and> map subtitleId (take (length cs) (buildSubtitles cx scored i cs)) =
       rev (map (\<lambda>c. S ''custom-'' @ customKey c) cs)
   \<and> map subtitleId (drop (length cs) (buildSubtitles cx scored i cs)) =
       map (\<lambda>r. S ''titulky-'' @ resultId (sub r)) (take 10 (rankedResults cx scored))
   \<and> length (filter (\<lambda>e. startsWith (subtitleId e) (S ''titulky-'')) (buildSubtitles cx scored i cs))
       = min 10 (length scored)
   \<and> mset (rankedResults cx scored) = mset scored"
  using buildSubtitles_props [of cx scored i cs] mset_ranked [of cx scored] by simp

section \<open>Properties of the search\<close>

lemma searchStandard_trace:
  "searchStandard env t w = (r, w') \<Longrightarrow> trace w' = trace w @ [SearchRequest t r]"
  by (auto simp: searchStandard_def Let_def split: prod.splits option.splits)

lemma searchLoop_trace:
  "searchLoop env w titles = (r, w') \<Longrightarrow>
   \<exists>qs. trace w' = trace w @ qs \<and> logins qs = 0 \<and>
     (case r of
        None \<Rightarrow> True
      | Some rs \<Rightarrow>
          if rs = [] then list_all emptyRequest qs
          else (\<exists>qs0 t. qs = qs0 @ [SearchRequest t (Some rs)] \<and> list_all emptyRequest qs0))"
proof (induction titles arbitrary: w)
  case Nil
  then show ?case by (auto simp: logins_def)
next
  case (Cons title rest)
  show ?case
  proof (cases "title = [] \<or> length title < 2")
    case True
    with Cons show ?thesis by simp
  next
    case False
    obtain r1 w1 where s: "searchStandard env title w = (r1, w1)"
      by (cases "searchStandard env title w")
    note tr = searchStandard_trace [OF s]
    show ?thesis
    proof (cases r1)
      case None
      with Cons.prems False s tr show ?thesis by (auto simp: logins_def)
    next
      case (Some results)
      show ?thesis
      proof (cases "results = []")
        case True
        with Cons.prems False s Some have "searchLoop env w1 rest = (r, w')" by simp
        from Cons.IH [OF this] obtain qs where
          qs: "trace w' = trace w1 @ qs" "logins qs = 0"
            "(case r of None \<Rightarrow> True
              | Some rs \<Rightarrow> if rs = [] then list_all emptyRequest qs
                  else (\<exists>qs0 t. qs = qs0 @ [SearchRequest t (Some rs)] \<and> list_all emptyRequest qs0))"
          by blast
        have e: "emptyRequest (SearchRequest title r1)" using Some True by (simp add: emptyRequest_def)
        show ?thesis
        proof (intro exI [of _ "SearchRequest title r1 # qs"] conjI)
          show "trace w' = trace w @ SearchRequest title r1 # qs" using qs(1) tr by simp
          show "logins (SearchRequest title r1 # qs) = 0" using qs(2) by (simp add: logins_def)
          show "case r of None \<Rightarrow> True
              | Some rs \<Rightarrow> if rs = [] then list_all emptyRequest (SearchRequest title r1 # qs)
                  else (\<exists>qs0 t. SearchRequest title r1 # qs = qs0 @ [SearchRequest t (Some rs)]
                         \<and> list_all emptyRequest qs0)"
          proof (cases r)
            case None then show ?thesis by simp
          next
            case (Some rs)
            show ?thesis
            proof (cases "rs = []")
              case True
              with Some qs(3) e show ?thesis by simp
            next
              case False
              with Some qs(3) obtain qs0 t where
                "qs = qs0 @ [SearchRequest t (Some rs)]" "list_all emptyRequest qs0" by auto
              with e have "SearchRequest title r1 # qs = (SearchRequest title r1 # qs0) @ [SearchRequest t (Some rs)]
                  \<and> list_all emptyRequest (SearchRequest title r1 # qs0)" by simp
              with Some False show ?thesis by (simp del: append_Cons)
            qed
          qed
        qed
      next
        case False
        with Cons.prems \<open>\<not> (title = [] \<or> length title < 2)\<close> s Some
        have "r = Some results" "w' = w1" by auto
        with tr Some False show ?thesis
          by (intro exI [of _ "[SearchRequest title (Some results)]"]) (auto simp: logins_def)
      qed
    qed
  qed
qed

lemma search_trace:
  assumes "search env w titles = (r, w')"
  shows "\<exists>qs. trace w' = trace w @ LoginCall # qs \<and> logins qs = 0 \<and>
     (case r of
        None \<Rightarrow> True
      | Some rs \<Rightarrow>
          if rs = [] then list_all emptyRequest qs
          else (\<exists>qs0 t. qs = qs0 @ [SearchRequest t (Some rs)] \<and> list_all emptyRequest qs0))"
proof (cases "awaitLogin env (net w)")
  case (Pair ok n')
  show ?thesis
  proof (cases ok)
    case None
    with Pair assms show ?thesis
      by (intro exI [of _ "[]"]) (auto simp: search_def logins_def)
  next
    case (Some b)
    with Pair assms have "searchLoop env (w\<lparr>trace := trace w @ [LoginCall], net := n'\<rparr>) titles = (r, w')"
      by (simp add: search_def)
    from searchLoop_trace [OF this] show ?thesis by auto
  qed
qed

lemma search_logins:
  "logins (trace (snd (search env w titles))) = Suc (logins (trace w))"
proof -
  obtain r w' where s: "search env w titles = (r, w')" by (cases "search env w titles")
  from search_trace [OF s] obtain qs where "trace w' = trace w @ LoginCall # qs" "logins qs = 0" by blast
  then show ?thesis using s by (simp add: logins_def)
qed

lemma searchLoop_stateless:
  assumes "\<And>t n. fst (getSearchPage env t n) = Some (page t)"
  shows "fst (searchLoop env w titles) = Some (firstNonEmpty (\<lambda>t. resultsOf env (page t)) titles)"
proof (induction titles arbitrary: w)
  case Nil
  then show ?case by (simp add: firstNonEmpty_def)
next
  case (Cons title rest)
  obtain c n' where g: "getSearchPage env title (net w) = (c, n')" by (cases "getSearchPage env title (net w)")
  with assms [of title "net w"] have c: "c = Some (page title)" by simp
  show ?case
    using Cons [of "w\<lparr>trace := trace w @ [SearchRequest title (Some (resultsOf env (page title)))], net := n'\<rparr>"]
      Cons [of w] g c
    by (auto simp: firstNonEmpty_def eligible_def searchStandard_def resultsOf_def Let_def)
qed

lemma search_stateless:
  assumes "\<And>t n. fst (getSearchPage env t n) = Some (page t)"
    and "\<And>n. fst (awaitLogin env n) \<noteq> None"
  shows "fst (search env w titles) = Some (firstNonEmpty (\<lambda>t. resultsOf env (page t)) titles)"
proof -
  obtain ok n' where a: "awaitLogin env (net w) = (ok, n')" by (cases "awaitLogin env (net w)")
  with assms(2) [of "net w"] obtain b where "ok = Some b" by auto
  with a show ?thesis
    using searchLoop_stateless [of env page, OF assms(1)] by (simp add: search_def)
qed

text \<open>
  Claim C4. Every call of \<open>search\<close> calls \<open>login()\<close> once, whatever the candidates.
  When the site answers every title with a page and the login does not fail, the result
  is that of the first candidate, in the order of the list and without the candidates
  of fewer than two code units, whose page gives a result, and the empty list when
  there is none. Whatever the site does, a result that is not empty is the result of the
  last request of the call, and every request before it gave no result: the results of
  two candidates are never put together.
\<close>

theorem search_first_nonempty:
  "logins (trace (snd (search env w titles))) = Suc (logins (trace w))
   \<and> ((\<forall>t n. fst (getSearchPage env t n) = Some (page t)) \<and> (\<forall>n. fst (awaitLogin env n) \<noteq> None)
        \<longrightarrow> fst (search env w titles) = Some (firstNonEmpty (\<lambda>t. resultsOf env (page t)) titles))
   \<and> (fst (search env w titles) = Some rs \<and> rs \<noteq> [] \<longrightarrow>
        (\<exists>qs0 t. trace (snd (search env w titles)) = trace w @ LoginCall # qs0 @ [SearchRequest t (Some rs)]
                 \<and> list_all emptyRequest qs0))"
proof -
  have c2: "(\<forall>t n. fst (getSearchPage env t n) = Some (page t)) \<and> (\<forall>n. fst (awaitLogin env n) \<noteq> None)
        \<longrightarrow> fst (search env w titles) = Some (firstNonEmpty (\<lambda>t. resultsOf env (page t)) titles)"
    using search_stateless [of env page w titles] by blast
  have c3: "fst (search env w titles) = Some rs \<and> rs \<noteq> [] \<longrightarrow>
        (\<exists>qs0 t. trace (snd (search env w titles)) = trace w @ LoginCall # qs0 @ [SearchRequest t (Some rs)]
                 \<and> list_all emptyRequest qs0)"
  proof
    assume a: "fst (search env w titles) = Some rs \<and> rs \<noteq> []"
    obtain w' where s: "search env w titles = (Some rs, w')"
      using a by (cases "search env w titles") auto
    from search_trace [OF s] a obtain qs qs0 t where
      "trace w' = trace w @ LoginCall # qs" "qs = qs0 @ [SearchRequest t (Some rs)]"
      "list_all emptyRequest qs0" by auto
    then show "\<exists>qs0 t. trace (snd (search env w titles)) = trace w @ LoginCall # qs0 @ [SearchRequest t (Some rs)]
                 \<and> list_all emptyRequest qs0"
      using s by auto
  qed
  from search_logins [of env w titles] c2 c3 show ?thesis by blast
qed

theorem search_first_nonempty_witness:
  "fst (search demoSite \<lparr>trace = [], net = 0\<rparr> [S ''Y'', S ''Xx'', S ''Yy'', S ''Zz'']) = Some [1, 2]
   \<and> firstNonEmpty (\<lambda>t. resultsOf demoSite (demoPage t)) [S ''Y'', S ''Xx'', S ''Yy'', S ''Zz''] = [1, 2]
   \<and> logins (trace (snd (search demoSite \<lparr>trace = [], net = 0\<rparr> [S ''Y'', S ''Xx'', S ''Yy'', S ''Zz'']))) = 1
   \<and> trace (snd (search demoSite \<lparr>trace = [], net = 0\<rparr> [S ''Y'', S ''Xx'', S ''Yy'', S ''Zz'']))
       = [LoginCall, SearchRequest (S ''Xx'') (Some []), SearchRequest (S ''Yy'') (Some [1, 2])]"
proof -
  have e: "search demoSite \<lparr>trace = [], net = 0\<rparr> [S ''Y'', S ''Xx'', S ''Yy'', S ''Zz'']
           = (Some [1, 2], \<lparr>trace = [LoginCall, SearchRequest (S ''Xx'') (Some []),
                                     SearchRequest (S ''Yy'') (Some [1, 2])], net = 2\<rparr>)"
    by (simp add: search_def searchStandard_def demoSite_def demoPage_def S_def Let_def)
  have h: "(\<forall>t n. fst (getSearchPage demoSite t n) = Some (demoPage t))
           \<and> (\<forall>n. fst (awaitLogin demoSite n) \<noteq> None)"
    by (simp add: demoSite_def)
  show ?thesis
    using search_first_nonempty [of demoSite "\<lparr>trace = [], net = 0\<rparr>"
        "[S ''Y'', S ''Xx'', S ''Yy'', S ''Zz'']" demoPage "[1, 2]"] h
    by (simp add: e logins_def)
qed

section \<open>Properties of the login\<close>














section \<open>Properties of the serving of a subtitle\<close>

lemmas serve_eval = serveRun_def arrive_def r2Done_def lockDone_def clientDone_def downloadDone_def
  createLock_def catchError_def releaseLock_def limitReached_def finish_def plain_def serverInit_def
  cacheKey_def isOmniOf_def plainPlatform_def ironMan_def SUBTITLE_CACHE_TTL_def Let_def
  failed_def sendOutsideTry_def sendInsideTry_def

lemma limit_true: "limitMsg True = srtToVtt (limitMsg False)"
  by (simp add: limitMsg_def limitText_def srtToVtt_def S_def matchSrtTime_def isDigit_def trim_def
      trimStart_def trimEnd_def isSpace_def)

lemma limit_response:
  assumes "pcs st rid = AwaitDownload p" "outcome = DownloadNull \<or> outcome = DownloadFiles []"
  shows "pcs (downloadDone pf rid outcome now st) rid =
     Done \<lparr>status = 200,
           contentType = Some (if isOmniOf (requests st rid) then S ''text/vtt; charset=utf-8''
                               else S ''text/plain; charset=utf-8''),
           contentDisposition = None,
           body = limitMsg (isOmniOf (requests st rid))\<rparr>"
  using assms by (auto simp: downloadDone_def limitReached_def finish_def releaseLock_def Let_def)

lemma run3:
  "pcs (serveRun (plainPlatform d16 d1250 enc)
        [Arrive 0 (ironMan True) 1000, R2Done 0 None 1001, ClientDone 0 ClientOk] serverInit) 0
   = AwaitDownload 0"
  by (simp add: serve_eval)

lemma run3_req:
  "requests (serveRun (plainPlatform d16 d1250 enc)
        [Arrive 0 (ironMan True) 1000, R2Done 0 None 1001, ClientDone 0 ClientOk] serverInit) 0
   = ironMan True"
  by (simp add: serve_eval)


lemma stuck_arrive: "stuck w p st \<Longrightarrow> stuck w p (arrive pf rid rq now st)"
  by (auto simp: stuck_def arrive_def finish_def sendOutsideTry_def Let_def
      split: option.splits sent.splits)

lemma stuck_r2Done: "stuck w p st \<Longrightarrow> stuck w p (r2Done pf rid r now st)"
  by (auto simp: stuck_def r2Done_def finish_def createLock_def sendOutsideTry_def Let_def
      split: option.splits sent.splits)

lemma stuck_lockDone: "stuck w p st \<Longrightarrow> stuck w p (lockDone pf rid st)"
  by (auto simp: stuck_def lockDone_def finish_def createLock_def sendInsideTry_def catchError_def
      Let_def split: option.splits pc.splits sent.splits)

lemma stuck_clientDone: "stuck w p st \<Longrightarrow> stuck w p (clientDone pf rid outcome st)"
  by (auto simp: stuck_def clientDone_def finish_def catchError_def releaseLock_def Let_def
      split: option.splits pc.splits clientOutcome.splits)

lemma stuck_downloadDone: "stuck w p st \<Longrightarrow> stuck w p (downloadDone pf rid outcome now st)"
  by (auto simp: stuck_def downloadDone_def finish_def catchError_def releaseLock_def limitReached_def
      sendInsideTry_def Let_def
      split: option.splits pc.splits downloadOutcome.splits list.splits sent.splits)

lemma stuck_step: "stuck w p st \<Longrightarrow> stuck w p (serveStep pf ev st)"
  by (cases ev) (simp_all add: stuck_arrive stuck_r2Done stuck_lockDone stuck_clientDone stuck_downloadDone)

lemma stuck_fold: "stuck w p st \<Longrightarrow> stuck w p (fold (serveStep pf) evs st)"
  by (induction evs arbitrary: st) (simp_all add: stuck_step)

lemma stuck_forever: "stuck w p st \<Longrightarrow> pcs (serveRun pf evs st) w = AwaitLock p"
  using stuck_fold [of w p st pf evs] by (simp add: stuck_def serveRun_def)

lemma throwRun_state:
  "pcs (serveRun (plainPlatform d16 d1250 enc) throwRun serverInit) 0 = Done (plain 500 (S ''Download failed''))"
  "pcs (serveRun (plainPlatform d16 d1250 enc) throwRun serverInit) 1 = AwaitLock 0"
  "downloadLocks (serveRun (plainPlatform d16 d1250 enc) throwRun serverInit) (S ''123456'') = None"
  "0 \<notin> resolvedLocks (serveRun (plainPlatform d16 d1250 enc) throwRun serverInit)"
  "stuck 1 0 (serveRun (plainPlatform d16 d1250 enc) throwRun serverInit)"
  by (simp_all add: throwRun_def serve_eval stuck_def S_def)

lemma release_on_limit:
  assumes "pcs st rid = AwaitDownload p" "outcome = DownloadNull \<or> outcome = DownloadFiles []"
  shows "downloadLocks (downloadDone pf rid outcome now st) (subId (requests st rid)) = None"
    and "p \<in> resolvedLocks (downloadDone pf rid outcome now st)"
  using assms by (auto simp: downloadDone_def limitReached_def finish_def releaseLock_def Let_def)

lemma release_on_success:
  assumes "pcs st rid = AwaitDownload p"
  shows "downloadLocks (downloadDone pf rid (DownloadFiles (f # fs)) now st) (subId (requests st rid)) = None"
    and "p \<in> resolvedLocks (downloadDone pf rid (DownloadFiles (f # fs)) now st)"
  using assms
  by (auto simp: downloadDone_def finish_def releaseLock_def sendInsideTry_def catchError_def Let_def
      split: sent.splits)

lemma release_on_no_client:
  assumes "pcs st rid = AwaitClient p"
  shows "downloadLocks (clientDone pf rid ClientNull st) (subId (requests st rid)) = None"
    and "p \<in> resolvedLocks (clientDone pf rid ClientNull st)"
  using assms by (auto simp: clientDone_def finish_def releaseLock_def Let_def)

lemma no_release_on_throw:
  assumes "pcs st rid = AwaitDownload p"
  shows "downloadLocks (downloadDone pf rid DownloadThrows now st) (subId (requests st rid)) = None"
    and "resolvedLocks (downloadDone pf rid DownloadThrows now st) = resolvedLocks st"
  using assms by (auto simp: downloadDone_def finish_def catchError_def Let_def)
























lemma serveRun_append: "serveRun pf (xs @ ys) st = serveRun pf ys (serveRun pf xs st)"
  by (simp add: serveRun_def)



lemma waitingRun_state:
  "pcs (serveRun (plainPlatform d16 d1250 enc) waitingRun serverInit) 0 = AwaitDownload 0"
  "pcs (serveRun (plainPlatform d16 d1250 enc) waitingRun serverInit) 1 = AwaitLock 0"
  "0 \<notin> resolvedLocks (serveRun (plainPlatform d16 d1250 enc) waitingRun serverInit)"
  "requests (serveRun (plainPlatform d16 d1250 enc) waitingRun serverInit) 0 = ironMan False"
  "requests (serveRun (plainPlatform d16 d1250 enc) waitingRun serverInit) 1 = ironMan True"
  "fetches (serveRun (plainPlatform d16 d1250 enc) waitingRun serverInit)
     = [(S ''123456'', S ''Iron-Man-123456'')]"
  "subtitleCache (serveRun (plainPlatform d16 d1250 enc) waitingRun serverInit) = Map.empty"
  "nextLock (serveRun (plainPlatform d16 d1250 enc) waitingRun serverInit) = 1"
  by (simp_all add: waitingRun_def serve_eval)















text \<open>
  Claim C3. When \<open>downloadSubtitle\<close> gives \<open>null\<close> or no file, the handler answers
  with the status 200 and the cue that tells that the limit is reached: with the type
  \<open>text/vtt\<close> and the cue after the header \<open>WEBVTT\<close> for Omni, with the type
  \<open>text/plain\<close> and the cue in the SRT form otherwise. The cue for Omni is the
  conversion of the other one.
\<close>

theorem limit_cue_served:
  "(pcs st rid = AwaitDownload p \<and> (outcome = DownloadNull \<or> outcome = DownloadFiles []) \<longrightarrow>
      pcs (downloadDone pf rid outcome now st) rid =
        Done \<lparr>status = 200,
              contentType = Some (if isOmniOf (requests st rid) then S ''text/vtt; charset=utf-8''
                                  else S ''text/plain; charset=utf-8''),
              contentDisposition = None,
              body = limitMsg (isOmniOf (requests st rid))\<rparr>)
   \<and> limitMsg True = S ''WEBVTT\<newline>\<newline>1\<newline>00:00:01.000 --> 00:00:30.000\<newline>'' @ limitText @ [10]
   \<and> limitMsg False = S ''1\<newline>00:00:01,000 --> 00:00:30,000\<newline>'' @ limitText @ [10]
   \<and> limitMsg True = srtToVtt (limitMsg False)"
  using limit_response [of st rid p outcome pf now] limit_true by (simp add: limitMsg_def)

theorem limit_cue_served_witness:
  "\<forall>d16 d1250 enc.
     pcs (serveRun (plainPlatform d16 d1250 enc) waitingRun serverInit) 0 = AwaitDownload 0
     \<and> pcs (downloadDone (plainPlatform d16 d1250 enc) 0 DownloadNull 5000
              (serveRun (plainPlatform d16 d1250 enc) waitingRun serverInit)) 0
         = Done \<lparr>status = 200, contentType = Some (S ''text/plain; charset=utf-8''),
                 contentDisposition = None, body = limitMsg False\<rparr>
     \<and> pcs (downloadDone (plainPlatform d16 d1250 enc) 0 (DownloadFiles []) 5000
              (serveRun (plainPlatform d16 d1250 enc) waitingRun serverInit)) 0
         = Done \<lparr>status = 200, contentType = Some (S ''text/plain; charset=utf-8''),
                 contentDisposition = None, body = limitMsg False\<rparr>"
proof (intro allI)
  fix d16 d1250 enc
  let ?pf = "plainPlatform d16 d1250 enc"
  let ?st = "serveRun ?pf waitingRun serverInit"
  have o: "\<not> isOmniOf (requests ?st 0)"
    by (simp add: waitingRun_state isOmniOf_def ironMan_def)
  show "pcs ?st 0 = AwaitDownload 0
     \<and> pcs (downloadDone ?pf 0 DownloadNull 5000 ?st) 0
         = Done \<lparr>status = 200, contentType = Some (S ''text/plain; charset=utf-8''),
                 contentDisposition = None, body = limitMsg False\<rparr>
     \<and> pcs (downloadDone ?pf 0 (DownloadFiles []) 5000 ?st) 0
         = Done \<lparr>status = 200, contentType = Some (S ''text/plain; charset=utf-8''),
                 contentDisposition = None, body = limitMsg False\<rparr>"
    using limit_cue_served [of ?st 0 0 DownloadNull ?pf 5000]
      limit_cue_served [of ?st 0 0 "DownloadFiles []" ?pf 5000] o
    by (simp add: waitingRun_state)
qed

text \<open>
  Claim C2 fails on the path of an exception. In \<open>throwRun\<close> the download of request 0
  throws while request 1 awaits the lock promise 0: the handler answers 500 and removes
  the entry of the map, but the promise is not resolved, and whatever happens afterwards
  request 1 stays where it is. In \<open>nullRun\<close>, where the download gives \<open>null\<close>, the
  promise is resolved and request 1 goes on.
\<close>

theorem lock_not_resolved_on_exception:
  "\<forall>d16 d1250 enc evs.
     pcs (serveRun (plainPlatform d16 d1250 enc) throwRun serverInit) 0
       = Done (plain 500 (S ''Download failed''))
     \<and> downloadLocks (serveRun (plainPlatform d16 d1250 enc) throwRun serverInit) (S ''123456'') = None
     \<and> 0 \<notin> resolvedLocks (serveRun (plainPlatform d16 d1250 enc) throwRun serverInit)
     \<and> pcs (serveRun (plainPlatform d16 d1250 enc) (throwRun @ evs) serverInit) 1 = AwaitLock 0
     \<and> 0 \<in> resolvedLocks (serveRun (plainPlatform d16 d1250 enc) (take 6 nullRun) serverInit)
     \<and> pcs (serveRun (plainPlatform d16 d1250 enc) (take 7 nullRun) serverInit) 1 = AwaitClient 1"
proof (intro allI)
  fix d16 d1250 enc evs
  let ?pf = "plainPlatform d16 d1250 enc"
  have s: "pcs (serveRun ?pf (throwRun @ evs) serverInit) 1 = AwaitLock 0"
    unfolding serveRun_append by (rule stuck_forever [OF throwRun_state(5)])
  have n: "0 \<in> resolvedLocks (serveRun ?pf (take 6 nullRun) serverInit)"
    "pcs (serveRun ?pf (take 7 nullRun) serverInit) 1 = AwaitClient 1"
    by (simp_all add: nullRun_def serve_eval)
  show "pcs (serveRun ?pf throwRun serverInit) 0 = Done (plain 500 (S ''Download failed''))
     \<and> downloadLocks (serveRun ?pf throwRun serverInit) (S ''123456'') = None
     \<and> 0 \<notin> resolvedLocks (serveRun ?pf throwRun serverInit)
     \<and> pcs (serveRun ?pf (throwRun @ evs) serverInit) 1 = AwaitLock 0
     \<and> 0 \<in> resolvedLocks (serveRun ?pf (take 6 nullRun) serverInit)
     \<and> pcs (serveRun ?pf (take 7 nullRun) serverInit) 1 = AwaitClient 1"
    using throwRun_state(1-4) [of d16 d1250 enc] s n by simp
qed




end
